theory Spec2Isabelle
  imports Main "HOL-Library.Multiset"
begin

text \<open>
  A model of the report structuring pipeline of \<open>structure_report.py\<close> (section
  mapper, interval resolver, segment builder, segment organizer, text renderer
  and the entry point \<open>predict\<close>) and of the result cache of \<open>cache_manager.py\<close>,
  with the properties of them that the specification states. Each function is
  translated from the Python source and keeps its name; exceptions are values of
  \<open>py_exn\<close>, mutable lists and dicts are passed in and returned.
\<close>

section \<open>Python strings\<close>

text \<open>
  Text is modelled as \<open>string\<close>, a list of 8-bit characters. On that range
  \<open>str.isspace\<close> holds for the code points 9-13, 28-32, 133 and 160, and these are
  the characters \<open>str.strip\<close>, \<open>str.lstrip\<close> and \<open>str.rstrip\<close> remove.
  \<open>str.lower\<close> maps \<open>A\<close>-\<open>Z\<close> and the capitals 192-222 other than 215 to the code
  point 32 higher and changes nothing else. \<open>str.upper\<close> maps \<open>a\<close>-\<open>z\<close> and the small
  letters 224-254 other than 247 to the code point 32 lower, and 223 to the two
  characters \<open>SS\<close>, so it can lengthen a text. The upper-case forms of 181 and 255
  lie beyond the 8-bit range; here the two characters stand for themselves,
  which no comparison with an ASCII text can tell apart.
\<close>

definition py_isspace :: "char \<Rightarrow> bool" where
  "py_isspace c = ((of_char c :: nat) \<in> {9, 10, 11, 12, 13, 28, 29, 30, 31, 32, 133, 160})"

definition str_lstrip :: "string \<Rightarrow> string" where
  "str_lstrip s = dropWhile py_isspace s"

definition str_rstrip :: "string \<Rightarrow> string" where
  "str_rstrip s = rev (dropWhile py_isspace (rev s))"

definition str_strip :: "string \<Rightarrow> string" where
  "str_strip s = str_lstrip (str_rstrip s)"

definition lower_char :: "char \<Rightarrow> char" where
  "lower_char c =
     (case map_of (zip ''ABCDEFGHIJKLMNOPQRSTUVWXYZ'' ''abcdefghijklmnopqrstuvwxyz'') c of
        Some d \<Rightarrow> d
      | None \<Rightarrow>
          (let n = (of_char c :: nat) in
           if 192 \<le> n \<and> n \<le> 222 \<and> n \<noteq> 215 then char_of (n + 32) else c))"

definition upper_char :: "char \<Rightarrow> string" where
  "upper_char c =
     (case map_of (zip ''abcdefghijklmnopqrstuvwxyz'' ''ABCDEFGHIJKLMNOPQRSTUVWXYZ'') c of
        Some d \<Rightarrow> [d]
      | None \<Rightarrow>
          (let n = (of_char c :: nat) in
           if n = 223 then ''SS''
           else if 224 \<le> n \<and> n \<le> 254 \<and> n \<noteq> 247 then [char_of (n - 32)]
           else [c]))"

definition str_lower :: "string \<Rightarrow> string" where
  "str_lower s = map lower_char s"

definition str_upper :: "string \<Rightarrow> string" where
  "str_upper s = concat (map upper_char s)"

definition str_startswith :: "string \<Rightarrow> string \<Rightarrow> bool" where
  "str_startswith s p = (take (length p) s = p)"

fun str_join :: "string \<Rightarrow> string list \<Rightarrow> string" where
  "str_join sep [] = []"
| "str_join sep [x] = x"
| "str_join sep (x # y # ys) = x @ sep @ str_join sep (y # ys)"

section \<open>Data model of structure_report.py\<close>

datatype py_exn =
    ValueError string
  | TypeError string
  | AttributeError string
  | OtherError string

datatype ReportSectionType = PREFIX | BODY | SUFFIX

text \<open>The enum's values and its \<open>display_name\<close> property (\<open>self.name.lower()\<close>).\<close>

fun section_value :: "ReportSectionType \<Rightarrow> string" where
  "section_value PREFIX = ''findings_prefix''"
| "section_value BODY = ''findings_body''"
| "section_value SUFFIX = ''findings_suffix''"

fun display_name :: "ReportSectionType \<Rightarrow> string" where
  "display_name PREFIX = ''prefix''"
| "display_name BODY = ''body''"
| "display_name SUFFIX = ''suffix''"

record FrontendIntervalDict =
  startPos :: int
  endPos :: int

record Segment =
  seg_type :: ReportSectionType
  label :: "string option"
  content :: string
  intervals :: "FrontendIntervalDict list"
  significance :: "string option"

text \<open>
  The objects an endpoint of a character interval can be: \<open>None\<close>, an integer, a
  slice-like object with \<open>start\<close> and \<open>stop\<close> attributes, or any other object on
  which \<open>int()\<close> raises (a non-numeric string, a list, ...).
\<close>

datatype pyobj = PyNone | PyInt int | PyNonNumeric | PySlice pyobj pyobj

text \<open>
  A \<open>CharInterval\<close> object and the dict override are read the same way, a missing
  key or attribute being \<open>None\<close>, so both are one record here.
\<close>

record CharInterval =
  start_pos :: pyobj
  end_pos :: pyobj

text \<open>
  An extraction; \<open>attributes\<close> is \<open>dict[str, str] | None\<close>, an association list
  standing for the dict.
\<close>

record Extraction =
  extraction_text :: string
  extraction_class :: string
  attributes :: "(string \<times> string) list option"
  char_interval :: "CharInterval option"

definition SECTION_ATTRIBUTE_KEY :: string where
  "SECTION_ATTRIBUTE_KEY = ''section''"

definition FINDINGS_HEADER :: string where
  "FINDINGS_HEADER = ''FINDINGS:''"

definition IMPRESSION_HEADER :: string where
  "IMPRESSION_HEADER = ''IMPRESSION:''"

definition EXAMINATION_HEADER :: string where
  "EXAMINATION_HEADER = ''EXAMINATION:''"

definition EXAM_PREFIXES :: "string list" where
  "EXAM_PREFIXES = [''EXAMINATION:'', ''EXAM:'', ''STUDY:'']"

definition EXAMINATION_LABEL :: string where
  "EXAMINATION_LABEL = ''examination''"

definition PREFIX_LABEL :: string where
  "PREFIX_LABEL = ''prefix''"

section \<open>Section mapper\<close>

definition pharma_map :: "string \<rightharpoonup> ReportSectionType" where
  "pharma_map = map_of
     [(''document_header'', PREFIX),
      (''methodology_body'', BODY),
      (''results_body'', BODY),
      (''conclusions_suffix'', SUFFIX)]"

definition map_section :: "string \<Rightarrow> ReportSectionType option" where
  "map_section cls =
     (let c = str_strip (str_lower cls) in
      case pharma_map c of
        Some t \<Rightarrow> Some t
      | None \<Rightarrow> find (\<lambda>section_type. section_value section_type = c) [PREFIX, BODY, SUFFIX])"

section \<open>Interval resolver\<close>

text \<open>\<open>int(obj)\<close> on an endpoint object.\<close>

fun py_int :: "pyobj \<Rightarrow> py_exn + int" where
  "py_int (PyInt n) = Inr n"
| "py_int PyNone = Inl (TypeError ''int() argument must be a string or a number'')"
| "py_int PyNonNumeric = Inl (ValueError ''invalid literal for int()'')"
| "py_int (PySlice a b) = Inl (TypeError ''int() argument must be a string or a number'')"

text \<open>\<open>int(obj) if obj is not None else None\<close>.\<close>

definition int_or_none :: "pyobj \<Rightarrow> py_exn + int option" where
  "int_or_none obj =
     (if obj \<noteq> PyNone
      then (case py_int obj of Inl e \<Rightarrow> Inl e | Inr n \<Rightarrow> Inr (Some n))
      else Inr None)"

text \<open>The body of the \<open>try\<close> block of \<open>_extract_positions\<close>.\<close>

definition extract_positions_try :: "pyobj \<Rightarrow> pyobj \<Rightarrow> py_exn + (int option \<times> int option)" where
  "extract_positions_try start_obj end_obj =
     (case int_or_none start_obj of
        Inl e \<Rightarrow> Inl e
      | Inr start_position \<Rightarrow>
          (case int_or_none end_obj of
             Inl e \<Rightarrow> Inl e
           | Inr end_position \<Rightarrow>
               if start_position \<noteq> None \<and> end_position \<noteq> None
               then Inr (start_position, end_position)
               else Inr (None, None)))"

definition extract_positions :: "pyobj \<Rightarrow> pyobj \<Rightarrow> int option \<times> int option" where
  "extract_positions start_obj end_obj =
     (let start_obj = (case start_obj of PySlice a b \<Rightarrow> a | _ \<Rightarrow> start_obj);
          end_obj = (case end_obj of PySlice a b \<Rightarrow> b | _ \<Rightarrow> end_obj)
      in case extract_positions_try start_obj end_obj of
           Inl e \<Rightarrow> (None, None)
         | Inr r \<Rightarrow> r)"

text \<open>
  \<open>_get_intervals_from_extraction_dict\<close>: the override is used when it is not
  \<open>None\<close>, else the extraction's own interval; every exception is swallowed.
\<close>

definition get_intervals_from_extraction_dict ::
    "Extraction \<Rightarrow> CharInterval option \<Rightarrow> FrontendIntervalDict list" where
  "get_intervals_from_extraction_dict extraction char_interval_arg =
     (let ci = (if char_interval_arg \<noteq> None then char_interval_arg
                else char_interval extraction)
      in case ci of
           None \<Rightarrow> []
         | Some c \<Rightarrow>
             (case extract_positions (start_pos c) (end_pos c) of
                (Some start_position, Some end_position) \<Rightarrow>
                  [\<lparr>startPos = start_position, endPos = end_position\<rparr>]
              | _ \<Rightarrow> []))"

section \<open>Segment builder\<close>

text \<open>A dict is truthy when it is non-empty; \<open>dict.get\<close> is \<open>map_of\<close>.\<close>

definition determine_section_label ::
    "(string \<times> string) list option \<Rightarrow> ReportSectionType \<Rightarrow> string" where
  "determine_section_label attrs section_type =
     (case attrs of
        None \<Rightarrow> display_name section_type
      | Some d \<Rightarrow>
          if d \<noteq> [] then
            (case map_of d SECTION_ATTRIBUTE_KEY of
               Some section_label \<Rightarrow>
                 if section_label \<noteq> [] then section_label else display_name section_type
             | None \<Rightarrow> display_name section_type)
          else display_name section_type)"

text \<open>
  A \<open>str\<close> has no \<open>value\<close> attribute, so \<open>getattr(sig_raw, "value", str(sig_raw))\<close>
  is the string itself.
\<close>

definition extract_clinical_significance ::
    "(string \<times> string) list option \<Rightarrow> string option" where
  "extract_clinical_significance attrs =
     (case attrs of
        None \<Rightarrow> None
      | Some d \<Rightarrow>
          if d = [] then None
          else (case map_of d ''clinical_significance'' of
                  Some sig_raw \<Rightarrow> Some (str_lower sig_raw)
                | None \<Rightarrow> None))"

definition create_segments_for_intervals ::
    "ReportSectionType \<Rightarrow> string \<Rightarrow> string \<Rightarrow> FrontendIntervalDict list \<Rightarrow> string option
      \<Rightarrow> Segment list" where
  "create_segments_for_intervals section_type section_label cont ivs sig =
     (if ivs = [] then
        [\<lparr>seg_type = section_type, label = Some section_label, content = cont,
          intervals = [], significance = sig\<rparr>]
      else
        map (\<lambda>interval. \<lparr>seg_type = section_type, label = Some section_label, content = cont,
                          intervals = [interval], significance = sig\<rparr>) ivs)"

text \<open>The body of the builder's loop: the segments one extraction adds.\<close>

definition segments_of_extraction :: "Extraction \<Rightarrow> Segment list" where
  "segments_of_extraction extraction =
     (case map_section (extraction_class extraction) of
        None \<Rightarrow> []
      | Some section_type \<Rightarrow>
          create_segments_for_intervals section_type
            (determine_section_label (attributes extraction) section_type)
            (extraction_text extraction)
            (get_intervals_from_extraction_dict extraction (char_interval extraction))
            (extract_clinical_significance (attributes extraction)))"

fun build_segments_loop :: "Extraction list \<Rightarrow> Segment list \<Rightarrow> Segment list" where
  "build_segments_loop [] segments_list = segments_list"
| "build_segments_loop (extraction # rest) segments_list =
     build_segments_loop rest (segments_list @ segments_of_extraction extraction)"

definition build_segments_from_langextract_result :: "Extraction list \<Rightarrow> Segment list" where
  "build_segments_from_langextract_result extractions = build_segments_loop extractions []"

section \<open>Segment organizer\<close>

text \<open>Truthiness of a label of type \<open>str | None\<close>.\<close>

definition label_truthy :: "string option \<Rightarrow> bool" where
  "label_truthy l = (case l of None \<Rightarrow> False | Some s \<Rightarrow> s \<noteq> [])"

text \<open>
  The loop over the body segments, on the dict \<open>body_segments_by_label\<close> and the
  list \<open>labels_in_order\<close>. A segment with a falsy label is skipped. The lookup
  before the append follows the insertion of a missing key, so it finds the key.
\<close>

fun group_body_loop ::
    "Segment list \<Rightarrow> (string \<rightharpoonup> Segment list) \<times> string list
      \<Rightarrow> (string \<rightharpoonup> Segment list) \<times> string list" where
  "group_body_loop [] st = st"
| "group_body_loop (segment # rest) (by_label, labels_in_order) =
     (case label segment of
        None \<Rightarrow> group_body_loop rest (by_label, labels_in_order)
      | Some l \<Rightarrow>
          if l = [] then group_body_loop rest (by_label, labels_in_order)
          else
            (let (by_label1, labels1) =
                   (if by_label l = None
                    then (by_label(l \<mapsto> []), labels_in_order @ [l])
                    else (by_label, labels_in_order))
             in case by_label1 l of
                  Some g \<Rightarrow> group_body_loop rest (by_label1(l \<mapsto> g @ [segment]), labels1)
                | None \<Rightarrow> group_body_loop rest (by_label1, labels1)))"

text \<open>
  \<open>body_segments_by_label[label]\<close> raises \<open>KeyError\<close> on a missing key; the second
  loop collects the groups or fails.
\<close>

fun extend_groups :: "(string \<rightharpoonup> Segment list) \<Rightarrow> string list \<Rightarrow> Segment list
    \<Rightarrow> py_exn + Segment list" where
  "extend_groups by_label [] organized = Inr organized"
| "extend_groups by_label (l # ls) organized =
     (case by_label l of
        None \<Rightarrow> Inl (OtherError ''KeyError'')
      | Some g \<Rightarrow> extend_groups by_label ls (organized @ g))"

definition organize_segments_by_label :: "Segment list \<Rightarrow> py_exn + Segment list" where
  "organize_segments_by_label segments =
     (let prefix_segments = filter (\<lambda>segment. seg_type segment = PREFIX) segments;
          body_segments = filter (\<lambda>segment. seg_type segment = BODY) segments;
          suffix_segments = filter (\<lambda>segment. seg_type segment = SUFFIX) segments;
          (body_segments_by_label, labels_in_order) =
             group_body_loop body_segments (Map.empty, [])
      in case extend_groups body_segments_by_label labels_in_order prefix_segments of
           Inl e \<Rightarrow> Inl e
         | Inr organized \<Rightarrow> Inr (organized @ suffix_segments))"


subsection \<open>What the organizer computes, stated on lists\<close>

text \<open>The distinct elements of a list, in the order of their first appearance.\<close>

fun first_appearance :: "'a list \<Rightarrow> 'a list" where
  "first_appearance [] = []"
| "first_appearance (x # xs) = x # first_appearance (filter (\<lambda>y. y \<noteq> x) xs)"

text \<open>
  The presentation order in words: the PREFIX segments in their original order,
  then the BODY segments regrouped by label, the groups in the order in which
  their labels first appear among the BODY segments and each group in original
  order, then the SUFFIX segments in their original order.
\<close>

definition organize_spec :: "Segment list \<Rightarrow> Segment list" where
  "organize_spec segments =
     (let body = filter (\<lambda>s. seg_type s = BODY) segments in
      filter (\<lambda>s. seg_type s = PREFIX) segments
      @ concat (map (\<lambda>l. filter (\<lambda>s. label s = l) body) (first_appearance (map label body)))
      @ filter (\<lambda>s. seg_type s = SUFFIX) segments)"

text \<open>The segments the organizer keeps: all but the BODY segments without a label.\<close>

definition organizer_keeps :: "Segment \<Rightarrow> bool" where
  "organizer_keeps s = (seg_type s = BODY \<longrightarrow> label_truthy (label s))"

fun zone_rank :: "ReportSectionType \<Rightarrow> nat" where
  "zone_rank PREFIX = 0"
| "zone_rank BODY = 1"
| "zone_rank SUFFIX = 2"

text \<open>
  No segment of a later zone stands before a segment of an earlier zone: the
  zone ranks along the list never decrease.
\<close>

definition zones_in_order :: "Segment list \<Rightarrow> bool" where
  "zones_in_order out = sorted (map (\<lambda>s. zone_rank (seg_type s)) out)"

text \<open>Auxiliary notions for the loop invariant of the organizer.\<close>

definition truthy_labels :: "Segment list \<Rightarrow> string list" where
  "truthy_labels xs =
     concat (map (\<lambda>s. case label s of None \<Rightarrow> [] | Some l \<Rightarrow> if l = [] then [] else [l]) xs)"

definition group_or_empty :: "(string \<rightharpoonup> Segment list) \<Rightarrow> string \<Rightarrow> Segment list" where
  "group_or_empty m k = (case m k of None \<Rightarrow> [] | Some g \<Rightarrow> g)"

definition body_groups :: "Segment list \<Rightarrow> Segment list" where
  "body_groups body =
     concat (map (\<lambda>l. filter (\<lambda>s. label s = Some l) body) (first_appearance (truthy_labels body)))"



section \<open>Text renderer\<close>

text \<open>
  The \<open>OrderedDict\<close> of the renderer, keyed by \<open>(type, label)\<close>, as an association
  list in insertion order.
\<close>

type_synonym grouped_contents = "((ReportSectionType \<times> string option) \<times> string list) list"

text \<open>\<open>grouped.setdefault(key, [])\<close>: a new key goes to the end.\<close>

definition od_setdefault :: "('k \<times> 'v) list \<Rightarrow> 'k \<Rightarrow> 'v \<Rightarrow> ('k \<times> 'v) list" where
  "od_setdefault d k v = (if map_of d k = None then d @ [(k, v)] else d)"

text \<open>\<open>grouped[key].append(x)\<close>: the list under the key grows in place.\<close>

fun od_append_to :: "('k \<times> 'v list) list \<Rightarrow> 'k \<Rightarrow> 'v \<Rightarrow> ('k \<times> 'v list) list" where
  "od_append_to [] k x = []"
| "od_append_to ((k', vs) # d) k x =
     (if k' = k then (k', vs @ [x]) # d else (k', vs) # od_append_to d k x)"

text \<open>
  The loop of \<open>_group_segments_by_type_and_label\<close>. The membership test is on
  \<open>seg.content\<close> as it stands, what is stored is \<open>seg.content.strip()\<close>. After
  \<open>setdefault\<close> the key is present, so the lookup cannot fail.
\<close>

fun group_segments_loop :: "Segment list \<Rightarrow> grouped_contents \<Rightarrow> grouped_contents" where
  "group_segments_loop [] grouped = grouped"
| "group_segments_loop (seg # rest) grouped =
     (let key = (seg_type seg, label seg);
          grouped1 = od_setdefault grouped key []
      in case map_of grouped1 key of
           None \<Rightarrow> group_segments_loop rest grouped1
         | Some cs \<Rightarrow>
             if content seg \<notin> set cs
             then group_segments_loop rest (od_append_to grouped1 key (str_strip (content seg)))
             else group_segments_loop rest grouped1)"

definition group_segments_by_type_and_label :: "Segment list \<Rightarrow> grouped_contents" where
  "group_segments_by_type_and_label segments = group_segments_loop segments []"

text \<open>\<open>_strip_exam_prefix\<close>: the loop over \<open>EXAM_PREFIXES\<close>, then the function.\<close>

fun strip_exam_prefix_loop :: "string \<Rightarrow> string \<Rightarrow> string list \<Rightarrow> string" where
  "strip_exam_prefix_loop text upper [] = str_strip text"
| "strip_exam_prefix_loop text upper (p # ps) =
     (if str_startswith upper p then str_lstrip (drop (length p) text)
      else strip_exam_prefix_loop text upper ps)"

definition strip_exam_prefix :: "string \<Rightarrow> string" where
  "strip_exam_prefix text = strip_exam_prefix_loop text (str_upper text) EXAM_PREFIXES"

text \<open>
  The tests \<open>label and label.lower() == c\<close> and \<open>label and label.lower() != c\<close> on
  a label of type \<open>str | None\<close>.
\<close>

definition label_lower_is :: "string option \<Rightarrow> string \<Rightarrow> bool" where
  "label_lower_is l c = (case l of None \<Rightarrow> False | Some s \<Rightarrow> s \<noteq> [] \<and> str_lower s = c)"

definition label_lower_is_not :: "string option \<Rightarrow> string \<Rightarrow> bool" where
  "label_lower_is_not l c = (case l of None \<Rightarrow> False | Some s \<Rightarrow> s \<noteq> [] \<and> str_lower s \<noteq> c)"

definition structured_prefix_exists :: "Segment list \<Rightarrow> bool" where
  "structured_prefix_exists segments =
     list_ex (\<lambda>seg. seg_type seg = PREFIX \<and> label_lower_is_not (label seg) PREFIX_LABEL) segments"

text \<open>
  The structured branch of \<open>_render_prefix_sections\<close>: the loop over
  \<open>grouped.items()\<close>, \<open>formatted_parts\<close> threaded through. The inner loops add the
  non-empty contents one by one.
\<close>

fun render_structured_prefix :: "grouped_contents \<Rightarrow> string list \<Rightarrow> string list" where
  "render_structured_prefix [] formatted_parts = formatted_parts"
| "render_structured_prefix (((stype, lbl), contents) # rest) formatted_parts =
     (if stype \<noteq> PREFIX then render_structured_prefix rest formatted_parts
      else if label_lower_is lbl EXAMINATION_LABEL then
        render_structured_prefix rest
          (formatted_parts @ [EXAMINATION_HEADER] @ [[]]
           @ filter (\<lambda>stripped. stripped \<noteq> []) (map strip_exam_prefix contents) @ [[]])
      else if label_lower_is_not lbl PREFIX_LABEL then
        render_structured_prefix rest
          (formatted_parts @ filter (\<lambda>c. c \<noteq> []) contents @ [[]])
      else
        render_structured_prefix rest
          (formatted_parts @ filter (\<lambda>c. c \<noteq> []) contents @ [[]]))"

text \<open>The plain branch collects the contents of all PREFIX groups.\<close>

fun plain_prefix_loop :: "grouped_contents \<Rightarrow> string list \<Rightarrow> string list" where
  "plain_prefix_loop [] plain_prefix = plain_prefix"
| "plain_prefix_loop (((stype, lbl), contents) # rest) plain_prefix =
     (if stype = PREFIX then plain_prefix_loop rest (plain_prefix @ contents)
      else plain_prefix_loop rest plain_prefix)"

definition render_prefix_sections ::
    "grouped_contents \<Rightarrow> Segment list \<Rightarrow> string list \<Rightarrow> string list" where
  "render_prefix_sections grouped segments formatted_parts =
     (if structured_prefix_exists segments then render_structured_prefix grouped formatted_parts
      else
        (let plain_prefix = plain_prefix_loop grouped [] in
         if plain_prefix \<noteq> []
         then formatted_parts @ [str_rstrip (str_join [CHR 0x0A, CHR 0x0A] plain_prefix)]
         else formatted_parts))"

text \<open>\<open>f"{label}"\<close> prints \<open>None\<close> for a missing label.\<close>

definition format_label :: "string option \<Rightarrow> string" where
  "format_label l = (case l of None \<Rightarrow> ''None'' | Some s \<Rightarrow> s)"

fun render_body_loop :: "grouped_contents \<Rightarrow> string list \<Rightarrow> string list" where
  "render_body_loop [] formatted_parts = formatted_parts"
| "render_body_loop (((stype, lbl), contents) # rest) formatted_parts =
     (let combined = str_strip (str_join '' '' contents) in
      if combined \<noteq> []
      then render_body_loop rest (formatted_parts @ [format_label lbl @ '': '' @ combined] @ [[]])
      else render_body_loop rest formatted_parts)"

definition render_body_sections :: "grouped_contents \<Rightarrow> string list \<Rightarrow> string list" where
  "render_body_sections grouped formatted_parts =
     (let body_items = filter (\<lambda>(k, v). fst k = BODY) grouped in
      if body_items \<noteq> [] then
        (let parts1 = (if formatted_parts \<noteq> [] then formatted_parts @ [[]] else formatted_parts)
         in render_body_loop body_items (parts1 @ [FINDINGS_HEADER] @ [[]]))
      else formatted_parts)"

definition render_suffix_sections :: "grouped_contents \<Rightarrow> string list \<Rightarrow> string list" where
  "render_suffix_sections grouped formatted_parts =
     (let suffix_items = filter (\<lambda>(k, v). fst k = SUFFIX) grouped in
      if suffix_items \<noteq> [] then
        (let parts1 = (if formatted_parts \<noteq> [] \<and> str_strip (last formatted_parts) \<noteq> []
                       then formatted_parts @ [[]] else formatted_parts);
             suffix_block = str_rstrip (str_join [CHR 0x0A] (concat (map snd suffix_items)))
         in parts1 @ [IMPRESSION_HEADER] @ [[]] @ [suffix_block])
      else formatted_parts)"

definition format_segments_to_text :: "Segment list \<Rightarrow> string" where
  "format_segments_to_text segments =
     (let grouped = group_segments_by_type_and_label segments;
          parts1 = render_prefix_sections grouped segments [];
          parts2 = render_body_sections grouped parts1;
          parts3 = render_suffix_sections grouped parts2
      in str_rstrip (str_join [CHR 0x0A] parts3))"

subsection \<open>The prefix zone in words\<close>

text \<open>
  The lines one PREFIX group contributes in the structured rendering: a group
  labelled \<open>examination\<close> is the \<open>EXAMINATION:\<close> banner, a blank line, its contents
  with the examination prefix stripped, and a blank line; any other group is its
  contents and a blank line, with no banner.
\<close>

definition prefix_group_lines :: "(ReportSectionType \<times> string option) \<times> string list \<Rightarrow> string list" where
  "prefix_group_lines g =
     (if label_lower_is (snd (fst g)) EXAMINATION_LABEL
      then [EXAMINATION_HEADER, []] @ filter (\<lambda>c. c \<noteq> []) (map strip_exam_prefix (snd g)) @ [[]]
      else filter (\<lambda>c. c \<noteq> []) (snd g) @ [[]])"

definition prefix_groups :: "grouped_contents \<Rightarrow> grouped_contents" where
  "prefix_groups grouped = filter (\<lambda>g. fst (fst g) = PREFIX) grouped"

section \<open>The entry point \<open>predict\<close>\<close>

record SegmentDict =
  sd_type :: string
  sd_label :: "string option"
  sd_content :: string
  sd_intervals :: "FrontendIntervalDict list"
  sd_significance :: "string option"

definition to_dict :: "Segment \<Rightarrow> SegmentDict" where
  "to_dict s =
     \<lparr>sd_type = display_name (seg_type s), sd_label = label s, sd_content = content s,
      sd_intervals = intervals s, sd_significance = significance s\<rparr>"

text \<open>
  The \<open>annotated_document_json\<close> field: the empty dict of the error payload, or
  the serialized extractions.
\<close>

datatype annotated_json = EmptyJson | ExtractionsJson "Extraction list"

record ResponseDict =
  resp_segments :: "SegmentDict list"
  resp_annotated_document_json :: annotated_json
  resp_text :: string
  resp_raw_prompt :: string

text \<open>
  \<open>_build_response\<close>. The prompt generator of \<open>prompt_lib\<close> is a parameter. An
  exception of the organizer would pass through.
\<close>

definition build_response ::
    "(string \<Rightarrow> string) \<Rightarrow> Extraction list \<Rightarrow> string \<Rightarrow> py_exn + ResponseDict" where
  "build_response generate_prompt result report_text =
     (let segs = build_segments_from_langextract_result result in
      case organize_segments_by_label segs of
        Inl e \<Rightarrow> Inl e
      | Inr organized_segments \<Rightarrow>
          Inr \<lparr>resp_segments = map to_dict organized_segments,
               resp_annotated_document_json = ExtractionsJson result,
               resp_text = format_segments_to_text organized_segments,
               resp_raw_prompt = generate_prompt report_text\<rparr>)"

text \<open>
  The exceptions the \<open>except\<close> clause of \<open>predict\<close> catches, with \<open>str(e)\<close>; any
  other exception propagates.
\<close>

fun caught_message :: "py_exn \<Rightarrow> string option" where
  "caught_message (ValueError m) = Some m"
| "caught_message (TypeError m) = Some m"
| "caught_message (AttributeError m) = Some m"
| "caught_message (OtherError m) = None"

text \<open>
  \<open>predict\<close>. The extraction engine (\<open>lx.extract\<close>, which may raise) is the
  parameter \<open>perform_langextract\<close>.
\<close>

definition predict ::
    "(string \<Rightarrow> int \<Rightarrow> py_exn + Extraction list) \<Rightarrow> (string \<Rightarrow> string) \<Rightarrow> string \<Rightarrow> int
      \<Rightarrow> py_exn + ResponseDict" where
  "predict perform_langextract generate_prompt report_text max_char_buffer =
     (if str_strip report_text = [] then Inl (ValueError ''Report text cannot be empty'')
      else
        (case (case perform_langextract report_text max_char_buffer of
                 Inl e \<Rightarrow> Inl e
               | Inr result \<Rightarrow> build_response generate_prompt result report_text) of
           Inr response \<Rightarrow> Inr response
         | Inl e \<Rightarrow>
             (case caught_message e of
                Some msg \<Rightarrow>
                  Inr \<lparr>resp_segments = [],
                       resp_annotated_document_json = EmptyJson,
                       resp_text = ''Error processing report: '' @ msg,
                       resp_raw_prompt = []\<rparr>
              | None \<Rightarrow> Inl e)))"

section \<open>Cache store (cache_manager.py)\<close>

text \<open>
  The cache file: absent, holding the JSON of a dict, or left incomplete by a
  dump that failed after the file was opened for writing.
\<close>

datatype 'v cache_file_state = NoFile | JsonFile "string \<rightharpoonup> 'v" | IncompleteFile

text \<open>
  What a write to the cache file does: it succeeds, it fails before the file is
  opened (the directory cannot be made, the file cannot be opened), or it fails
  during \<open>json.dump\<close>, after \<open>open(..., "w")\<close> has emptied the file.
\<close>

datatype write_outcome = WriteSucceeds | OpenFails | DumpFails

text \<open>
  The state of a \<open>CacheManager\<close>: the in-memory dict, the cache file, and what a
  write does. The payload type is left open.
\<close>

record 'v CacheManager =
  cache_data :: "string \<rightharpoonup> 'v"
  cache_file :: "'v cache_file_state"
  disk :: write_outcome

text \<open>\<open>_save_cache\<close>: every exception is logged and swallowed.\<close>

definition save_cache :: "'v CacheManager \<Rightarrow> 'v CacheManager" where
  "save_cache st =
     (case disk st of
        WriteSucceeds \<Rightarrow> st\<lparr>cache_file := JsonFile (cache_data st)\<rparr>
      | OpenFails \<Rightarrow> st
      | DumpFails \<Rightarrow> st\<lparr>cache_file := IncompleteFile\<rparr>)"

text \<open>
  \<open>_get_cache_key\<close>; \<open>md5_hexdigest\<close> stands for
  \<open>hashlib.md5(text.encode('utf-8')).hexdigest()\<close>. An empty \<open>sample_id\<close> is
  falsy, like \<open>None\<close>.
\<close>

definition get_cache_key :: "(string \<Rightarrow> string) \<Rightarrow> string \<Rightarrow> string option \<Rightarrow> string" where
  "get_cache_key md5_hexdigest txt sample_id =
     (case sample_id of
        None \<Rightarrow> ''custom_'' @ md5_hexdigest txt
      | Some sid \<Rightarrow>
          if sid \<noteq> [] then
            (if str_startswith sid ''sample_'' then sid else ''sample_'' @ sid)
          else ''custom_'' @ md5_hexdigest txt)"

definition get_cached_result ::
    "(string \<Rightarrow> string) \<Rightarrow> 'v CacheManager \<Rightarrow> string \<Rightarrow> string option \<Rightarrow> 'v option" where
  "get_cached_result md5_hexdigest st txt sample_id =
     cache_data st (get_cache_key md5_hexdigest txt sample_id)"

definition cache_result ::
    "(string \<Rightarrow> string) \<Rightarrow> 'v CacheManager \<Rightarrow> string \<Rightarrow> 'v \<Rightarrow> string option
      \<Rightarrow> 'v CacheManager" where
  "cache_result md5_hexdigest st txt result sample_id =
     (let cache_key = get_cache_key md5_hexdigest txt sample_id in
      save_cache (st\<lparr>cache_data := (cache_data st)(cache_key \<mapsto> result)\<rparr>))"

definition clear_cache :: "'v CacheManager \<Rightarrow> 'v CacheManager" where
  "clear_cache st = save_cache (st\<lparr>cache_data := Map.empty\<rparr>)"

text \<open>\<open>remove_sample\<close> returns the flag and the new state.\<close>

definition remove_sample :: "'v CacheManager \<Rightarrow> string \<Rightarrow> bool \<times> 'v CacheManager" where
  "remove_sample st sample_id =
     (let cache_key = ''sample_'' @ sample_id in
      if cache_data st cache_key \<noteq> None
      then (True, save_cache (st\<lparr>cache_data := (cache_data st)(cache_key := None)\<rparr>))
      else (False, st))"

section \<open>Properties of the organizer\<close>

lemma truthy_labels_Cons:
  "truthy_labels (s # xs) = (case label s of None \<Rightarrow> [] | Some l \<Rightarrow> if l = [] then [] else [l]) @ truthy_labels xs"
  by (simp add: truthy_labels_def)

lemma truthy_labels_Nil: "truthy_labels [] = []"
  by (simp add: truthy_labels_def)

lemma group_body_loop_skip:
  "\<not> label_truthy (label s) \<Longrightarrow> group_body_loop (s # xs) (m, ls) = group_body_loop xs (m, ls)"
  by (auto simp: label_truthy_def split: option.splits)

lemma group_body_loop_new:
  "label s = Some l \<Longrightarrow> l \<noteq> [] \<Longrightarrow> m l = None \<Longrightarrow>
   group_body_loop (s # xs) (m, ls) = group_body_loop xs (m(l \<mapsto> [s]), ls @ [l])"
  by simp

lemma group_body_loop_old:
  "label s = Some l \<Longrightarrow> l \<noteq> [] \<Longrightarrow> m l = Some g \<Longrightarrow>
   group_body_loop (s # xs) (m, ls) = group_body_loop xs (m(l \<mapsto> g @ [s]), ls)"
  by simp

lemma truthy_labels_skip:
  "\<not> label_truthy (label s) \<Longrightarrow> truthy_labels (s # xs) = truthy_labels xs"
  by (auto simp: truthy_labels_def label_truthy_def split: option.splits)

lemma truthy_labels_keep:
  "label s = Some l \<Longrightarrow> l \<noteq> [] \<Longrightarrow> truthy_labels (s # xs) = l # truthy_labels xs"
  by (simp add: truthy_labels_def)

lemma truthy_labels_nonempty: "k \<in> set (truthy_labels xs) \<Longrightarrow> k \<noteq> []"
  by (auto simp: truthy_labels_def split: option.splits if_splits)

lemma group_body_loop_labels:
  "dom m = set ls \<Longrightarrow>
   snd (group_body_loop xs (m, ls)) =
     ls @ first_appearance (filter (\<lambda>k. k \<notin> set ls) (truthy_labels xs))"
proof (induction xs arbitrary: m ls)
  case Nil
  then show ?case by (simp add: truthy_labels_Nil)
next
  case (Cons s xs)
  show ?case
  proof (cases "label_truthy (label s)")
    case False
    show ?thesis
      by (simp only: group_body_loop_skip[OF False] truthy_labels_skip[OF False]
            Cons.IH[OF Cons.prems])
  next
    case True
    then obtain l where l: "label s = Some l" "l \<noteq> []"
      by (auto simp: label_truthy_def split: option.splits)
    show ?thesis
    proof (cases "m l")
      case None
      then have notin: "l \<notin> set ls" using Cons.prems by (metis domIff)
      have d: "dom (m(l \<mapsto> [s])) = set (ls @ [l])" using Cons.prems by auto
      have "snd (group_body_loop (s # xs) (m, ls)) =
            (ls @ [l]) @ first_appearance (filter (\<lambda>k. k \<notin> set (ls @ [l])) (truthy_labels xs))"
        by (simp only: group_body_loop_new[where m=m, OF l None] Cons.IH[OF d])
      also have "\<dots> = ls @ first_appearance (filter (\<lambda>k. k \<notin> set ls) (truthy_labels (s # xs)))"
        using notin by (simp add: truthy_labels_keep[OF l] conj_commute)
      finally show ?thesis .
    next
      case (Some g)
      then have isin: "l \<in> set ls" using Cons.prems by (metis domI)
      have d: "dom (m(l \<mapsto> g @ [s])) = set ls" using Cons.prems isin by auto
      have "snd (group_body_loop (s # xs) (m, ls)) =
            ls @ first_appearance (filter (\<lambda>k. k \<notin> set ls) (truthy_labels xs))"
        by (simp only: group_body_loop_old[where m=m, OF l Some] Cons.IH[OF d])
      also have "\<dots> = ls @ first_appearance (filter (\<lambda>k. k \<notin> set ls) (truthy_labels (s # xs)))"
        using isin by (simp add: truthy_labels_keep[OF l])
      finally show ?thesis .
    qed
  qed
qed

lemma group_body_loop_map:
  assumes "[] \<notin> dom m"
  shows "fst (group_body_loop xs (m, ls)) k =
     (if k \<in> dom m \<or> k \<in> set (truthy_labels xs)
      then Some (group_or_empty m k @ filter (\<lambda>s. label s = Some k) xs)
      else None)"
  using assms
proof (induction xs arbitrary: m ls)
  case Nil
  then show ?case by (auto simp: truthy_labels_Nil group_or_empty_def)
next
  case (Cons s xs)
  show ?case
  proof (cases "label_truthy (label s)")
    case False
    have "k \<in> dom m \<or> k \<in> set (truthy_labels xs) \<Longrightarrow> label s \<noteq> Some k"
      using False Cons.prems truthy_labels_nonempty[of k xs]
      by (auto simp: label_truthy_def)
    then show ?thesis
      by (simp add: group_body_loop_skip[OF False] truthy_labels_skip[OF False]
            Cons.IH[OF Cons.prems] del: group_body_loop.simps)
  next
    case True
    then obtain l where l: "label s = Some l" "l \<noteq> []"
      by (auto simp: label_truthy_def split: option.splits)
    show ?thesis
    proof (cases "m l")
      case None
      have d: "[] \<notin> dom (m(l \<mapsto> [s]))" using Cons.prems l by auto
      have "fst (group_body_loop (s # xs) (m, ls)) k =
            (if k \<in> dom (m(l \<mapsto> [s])) \<or> k \<in> set (truthy_labels xs)
             then Some (group_or_empty (m(l \<mapsto> [s])) k @ filter (\<lambda>s. label s = Some k) xs)
             else None)"
        by (simp only: group_body_loop_new[where m=m, OF l None] Cons.IH[OF d])
      also have "\<dots> = (if k \<in> dom m \<or> k \<in> set (truthy_labels (s # xs))
             then Some (group_or_empty m k @ filter (\<lambda>s. label s = Some k) (s # xs))
             else None)"
        using None l by (auto simp: truthy_labels_keep[OF l] group_or_empty_def domIff)
      finally show ?thesis .
    next
      case (Some g)
      have d: "[] \<notin> dom (m(l \<mapsto> g @ [s]))" using Cons.prems l by auto
      have "fst (group_body_loop (s # xs) (m, ls)) k =
            (if k \<in> dom (m(l \<mapsto> g @ [s])) \<or> k \<in> set (truthy_labels xs)
             then Some (group_or_empty (m(l \<mapsto> g @ [s])) k @ filter (\<lambda>s. label s = Some k) xs)
             else None)"
        by (simp only: group_body_loop_old[where m=m, OF l Some] Cons.IH[OF d])
      also have "\<dots> = (if k \<in> dom m \<or> k \<in> set (truthy_labels (s # xs))
             then Some (group_or_empty m k @ filter (\<lambda>s. label s = Some k) (s # xs))
             else None)"
        using Some l by (auto simp: truthy_labels_keep[OF l] group_or_empty_def domIff)
      finally show ?thesis .
    qed
  qed
qed

lemma set_first_appearance: "set (first_appearance xs) = set xs"
  by (induction xs rule: first_appearance.induct) auto

lemma extend_groups_ok:
  "set ls \<subseteq> dom m \<Longrightarrow>
   extend_groups m ls acc = Inr (acc @ concat (map (group_or_empty m) ls))"
  by (induction ls arbitrary: acc) (auto simp: group_or_empty_def split: option.splits)

lemma organize_char:
  "organize_segments_by_label segments =
     Inr (filter (\<lambda>s. seg_type s = PREFIX) segments
          @ body_groups (filter (\<lambda>s. seg_type s = BODY) segments)
          @ filter (\<lambda>s. seg_type s = SUFFIX) segments)"
proof -
  let ?B = "filter (\<lambda>s. seg_type s = BODY) segments"
  obtain m ls where r: "group_body_loop ?B (Map.empty, []) = (m, ls)"
    by (cases "group_body_loop ?B (Map.empty, [])") 
  have ls: "ls = first_appearance (truthy_labels ?B)"
    using group_body_loop_labels[of Map.empty "[]" ?B] r by simp
  have m: "m k = (if k \<in> set (truthy_labels ?B) then Some (filter (\<lambda>s. label s = Some k) ?B) else None)" for k
    using group_body_loop_map[of Map.empty ?B "[]" k] r by (simp add: group_or_empty_def)
  have sub: "set ls \<subseteq> dom m"
    using m by (auto simp: ls set_first_appearance domIff)
  have g: "map (group_or_empty m) ls = map (\<lambda>l. filter (\<lambda>s. label s = Some l) ?B) ls"
    using m by (auto simp: ls set_first_appearance group_or_empty_def)
  have "organize_segments_by_label segments =
     Inr (filter (\<lambda>s. seg_type s = PREFIX) segments
          @ concat (map (group_or_empty m) ls)
          @ filter (\<lambda>s. seg_type s = SUFFIX) segments)"
    unfolding organize_segments_by_label_def Let_def r
    by (simp add: extend_groups_ok[OF sub])
  then have "organize_segments_by_label segments =
     Inr (filter (\<lambda>s. seg_type s = PREFIX) segments
          @ concat (map (\<lambda>l. filter (\<lambda>s. label s = Some l)
                     (filter (\<lambda>s. seg_type s = BODY) segments)) ls)
          @ filter (\<lambda>s. seg_type s = SUFFIX) segments)"
    by (simp only: g)
  then show ?thesis
    by (simp only: body_groups_def ls)
qed


lemma distinct_first_appearance: "distinct (first_appearance xs)"
  by (induction xs rule: first_appearance.induct) (auto simp: set_first_appearance)

lemma first_appearance_map_inj:
  "inj f \<Longrightarrow> first_appearance (map f xs) = map f (first_appearance xs)"
proof (induction xs rule: first_appearance.induct)
  case 1
  then show ?case by simp
next
  case (2 x xs)
  have "filter (\<lambda>y. y \<noteq> f x) (map f xs) = map f (filter (\<lambda>y. y \<noteq> x) xs)"
    using 2(2) by (induction xs) (auto dest: injD)
  with 2 show ?case by simp
qed

lemma mset_groups:
  "distinct ls \<Longrightarrow>
   mset (concat (map (\<lambda>l. filter (\<lambda>s. f s = l) xs) ls)) = mset (filter (\<lambda>s. f s \<in> set ls) xs)"
proof (induction ls)
  case Nil
  then show ?case by simp
next
  case (Cons l ls)
  from Cons.prems have notin: "l \<notin> set ls" and d: "distinct ls" by simp_all
  have split: "mset (filter (\<lambda>s. f s \<in> set (l # ls)) ys) =
        mset (filter (\<lambda>s. f s = l) ys) + mset (filter (\<lambda>s. f s \<in> set ls) ys)" for ys
    using notin by (induction ys) auto
  have "mset (concat (map (\<lambda>l. filter (\<lambda>s. f s = l) xs) (l # ls))) =
        mset (filter (\<lambda>s. f s = l) xs) + mset (concat (map (\<lambda>l. filter (\<lambda>s. f s = l) xs) ls))"
    by simp
  also have "\<dots> = mset (filter (\<lambda>s. f s = l) xs) + mset (filter (\<lambda>s. f s \<in> set ls) xs)"
    by (simp only: Cons.IH[OF d])
  also have "\<dots> = mset (filter (\<lambda>s. f s \<in> set (l # ls)) xs)"
    by (rule split[symmetric])
  finally show ?case .
qed

lemma truthy_label_in_labels:
  "s \<in> set xs \<Longrightarrow> label s = Some l \<Longrightarrow> l \<noteq> [] \<Longrightarrow> l \<in> set (truthy_labels xs)"
proof (induction xs)
  case Nil
  then show ?case by simp
next
  case (Cons a xs)
  show ?case
  proof (cases "s = a")
    case True
    with Cons.prems have "truthy_labels (a # xs) = l # truthy_labels xs"
      by (simp add: truthy_labels_keep)
    then show ?thesis by simp
  next
    case False
    with Cons have "l \<in> set (truthy_labels xs)" by simp
    then show ?thesis by (simp add: truthy_labels_Cons)
  qed
qed

lemma mset_body_groups:
  "mset (body_groups body) = mset (filter (\<lambda>s. label_truthy (label s)) body)"
proof -
  let ?ls = "first_appearance (truthy_labels body)"
  have "mset (body_groups body) =
        mset (concat (map (\<lambda>l. filter (\<lambda>s. label s = l) body) (map Some ?ls)))"
    by (simp add: body_groups_def comp_def)
  also have "\<dots> = mset (filter (\<lambda>s. label s \<in> set (map Some ?ls)) body)"
    by (rule mset_groups) (simp add: distinct_map distinct_first_appearance)
  also have "filter (\<lambda>s. label s \<in> set (map Some ?ls)) body =
             filter (\<lambda>s. label_truthy (label s)) body"
  proof (rule filter_cong[OF refl])
    fix s assume "s \<in> set body"
    then show "(label s \<in> set (map Some ?ls)) = label_truthy (label s)"
      using truthy_label_in_labels[of s body] truthy_labels_nonempty
      by (auto simp: set_first_appearance label_truthy_def split: option.splits)
  qed
  finally show ?thesis .
qed

lemma mset_by_zone:
  "mset xs = mset (filter (\<lambda>s. seg_type s = PREFIX) xs)
           + mset (filter (\<lambda>s. seg_type s = BODY) xs)
           + mset (filter (\<lambda>s. seg_type s = SUFFIX) xs)"
proof (induction xs)
  case Nil
  then show ?case by simp
next
  case (Cons s xs)
  then show ?case by (cases "seg_type s") simp_all
qed

lemma organize_mset:
  "organize_segments_by_label segments = Inr out \<Longrightarrow>
   mset out = mset (filter organizer_keeps segments)"
proof -
  assume "organize_segments_by_label segments = Inr out"
  then have out: "out = filter (\<lambda>s. seg_type s = PREFIX) segments
          @ body_groups (filter (\<lambda>s. seg_type s = BODY) segments)
          @ filter (\<lambda>s. seg_type s = SUFFIX) segments"
    by (simp add: organize_char)
  let ?K = "filter organizer_keeps segments"
  have p: "filter (\<lambda>s. seg_type s = PREFIX) ?K = filter (\<lambda>s. seg_type s = PREFIX) segments"
    by (induction segments) (auto simp: organizer_keeps_def)
  have b: "filter (\<lambda>s. seg_type s = BODY) ?K =
           filter (\<lambda>s. label_truthy (label s)) (filter (\<lambda>s. seg_type s = BODY) segments)"
    by (induction segments) (auto simp: organizer_keeps_def)
  have s: "filter (\<lambda>s. seg_type s = SUFFIX) ?K = filter (\<lambda>s. seg_type s = SUFFIX) segments"
    by (induction segments) (auto simp: organizer_keeps_def)
  have "mset ?K = mset (filter (\<lambda>s. seg_type s = PREFIX) segments)
      + mset (filter (\<lambda>s. label_truthy (label s)) (filter (\<lambda>s. seg_type s = BODY) segments))
      + mset (filter (\<lambda>s. seg_type s = SUFFIX) segments)"
    by (rule mset_by_zone[of ?K, unfolded p b s])
  also have "\<dots> = mset out"
    by (simp only: out mset_append mset_body_groups add.assoc)
  finally show ?thesis by (rule sym)
qed

lemma organize_spec_kept:
  "organize_spec (filter organizer_keeps segments) =
     filter (\<lambda>s. seg_type s = PREFIX) segments
     @ body_groups (filter (\<lambda>s. seg_type s = BODY) segments)
     @ filter (\<lambda>s. seg_type s = SUFFIX) segments"
proof -
  let ?K = "filter organizer_keeps segments"
  let ?B = "filter (\<lambda>s. seg_type s = BODY) segments"
  let ?T = "filter (\<lambda>s. label_truthy (label s)) ?B"
  have p: "filter (\<lambda>s. seg_type s = PREFIX) ?K = filter (\<lambda>s. seg_type s = PREFIX) segments"
    by (induction segments) (auto simp: organizer_keeps_def)
  have b: "filter (\<lambda>s. seg_type s = BODY) ?K = ?T"
    by (induction segments) (auto simp: organizer_keeps_def)
  have s: "filter (\<lambda>s. seg_type s = SUFFIX) ?K = filter (\<lambda>s. seg_type s = SUFFIX) segments"
    by (induction segments) (auto simp: organizer_keeps_def)
  have labels: "map label (filter (\<lambda>s. label_truthy (label s)) xs) = map Some (truthy_labels xs)" for xs
    by (induction xs)
       (auto simp: truthy_labels_Cons truthy_labels_Nil label_truthy_def split: option.splits)
  have fa: "first_appearance (map label ?T) = map Some (first_appearance (truthy_labels ?B))"
    by (simp only: labels first_appearance_map_inj[OF inj_Some])
  have grp: "filter (\<lambda>s. label s = Some l) ?T = filter (\<lambda>s. label s = Some l) ?B"
    if "l \<in> set (first_appearance (truthy_labels ?B))" for l
  proof -
    from that have "l \<noteq> []" using truthy_labels_nonempty by (simp add: set_first_appearance)
    then show ?thesis by (induction segments) (auto simp: label_truthy_def)
  qed
  have "concat (map (\<lambda>l. filter (\<lambda>s. label s = l) ?T) (first_appearance (map label ?T))) =
        concat (map (\<lambda>l. filter (\<lambda>s. label s = Some l) ?T) (first_appearance (truthy_labels ?B)))"
    by (simp only: fa map_map comp_def)
  also have "\<dots> = body_groups ?B"
    unfolding body_groups_def using grp by (intro arg_cong[where f=concat] map_cong refl) simp
  finally show ?thesis
    unfolding organize_spec_def Let_def by (simp only: p b s)
qed


lemma zone_rank_const:
  "\<forall>s\<in>set xs. seg_type s = z \<Longrightarrow>
   map (\<lambda>s. zone_rank (seg_type s)) xs = replicate (length xs) (zone_rank z)"
  by (induction xs) simp_all

lemma zones_in_order_blocks:
  assumes "\<forall>s\<in>set ps. seg_type s = PREFIX"
    and "\<forall>s\<in>set bs. seg_type s = BODY"
    and "\<forall>s\<in>set ss. seg_type s = SUFFIX"
  shows "zones_in_order (ps @ bs @ ss)"
proof -
  have "map (\<lambda>s. zone_rank (seg_type s)) (ps @ bs @ ss) =
        replicate (length ps) 0 @ replicate (length bs) 1 @ replicate (length ss) 2"
    using zone_rank_const[OF assms(1)] zone_rank_const[OF assms(2)] zone_rank_const[OF assms(3)]
    by simp
  then show ?thesis
    unfolding zones_in_order_def by (simp add: sorted_append)
qed

lemma body_groups_zone:
  "\<forall>s\<in>set (body_groups (filter (\<lambda>s. seg_type s = BODY) segments)). seg_type s = BODY"
  by (auto simp: body_groups_def)

lemma zones_in_order_organized:
  "zones_in_order (filter (\<lambda>s. seg_type s = PREFIX) segments
          @ body_groups (filter (\<lambda>s. seg_type s = BODY) segments)
          @ filter (\<lambda>s. seg_type s = SUFFIX) segments)"
  by (rule zones_in_order_blocks[OF _ body_groups_zone]) simp_all

text \<open>
  C3 (as amended). The organizer returns a list, never a \<open>KeyError\<close>. Its result
  holds exactly the input segments other than the BODY segments whose label is
  \<open>None\<close> or empty, each as often as in the input and unmodified; so when every
  BODY segment of the input has a non-empty label, the result is a permutation
  of the input. In the result every PREFIX segment stands before every BODY
  segment, and every BODY segment before every SUFFIX segment.
\<close>

theorem organize_stable_permutation:
  "\<exists>out. organize_segments_by_label segments = Inr out
      \<and> mset out = mset (filter organizer_keeps segments)
      \<and> ((\<forall>s\<in>set segments. organizer_keeps s) \<longrightarrow> mset out = mset segments)
      \<and> zones_in_order out"
proof -
  let ?out = "filter (\<lambda>s. seg_type s = PREFIX) segments
          @ body_groups (filter (\<lambda>s. seg_type s = BODY) segments)
          @ filter (\<lambda>s. seg_type s = SUFFIX) segments"
  have r: "organize_segments_by_label segments = Inr ?out" by (rule organize_char)
  have m: "mset ?out = mset (filter organizer_keeps segments)"
    by (rule organize_mset[OF r])
  have a: "(\<forall>s\<in>set segments. organizer_keeps s) \<longrightarrow> mset ?out = mset segments"
  proof
    assume "\<forall>s\<in>set segments. organizer_keeps s"
    then have "filter organizer_keeps segments = segments" by (simp add: filter_id_conv)
    with m show "mset ?out = mset segments" by (simp only:)
  qed
  from r m a zones_in_order_organized[of segments] show ?thesis by blast
qed

text \<open>The theorem at five labelled segments given out of zone order.\<close>

theorem organize_stable_permutation_witness:
  "\<exists>out. organize_segments_by_label
             [\<lparr>seg_type = BODY, label = Some ''A'', content = ''a1'', intervals = [], significance = None\<rparr>,
              \<lparr>seg_type = SUFFIX, label = Some ''suffix'', content = ''s'', intervals = [], significance = None\<rparr>,
              \<lparr>seg_type = BODY, label = Some ''B'', content = ''b'', intervals = [], significance = None\<rparr>,
              \<lparr>seg_type = PREFIX, label = Some ''prefix'', content = ''p'', intervals = [], significance = None\<rparr>,
              \<lparr>seg_type = BODY, label = Some ''A'', content = ''a2'', intervals = [], significance = None\<rparr>]
            = Inr out
         \<and> mset out = mset
             [\<lparr>seg_type = BODY, label = Some ''A'', content = ''a1'', intervals = [], significance = None\<rparr>,
              \<lparr>seg_type = SUFFIX, label = Some ''suffix'', content = ''s'', intervals = [], significance = None\<rparr>,
              \<lparr>seg_type = BODY, label = Some ''B'', content = ''b'', intervals = [], significance = None\<rparr>,
              \<lparr>seg_type = PREFIX, label = Some ''prefix'', content = ''p'', intervals = [], significance = None\<rparr>,
              \<lparr>seg_type = BODY, label = Some ''A'', content = ''a2'', intervals = [], significance = None\<rparr>]
         \<and> zones_in_order out"
proof -
  let ?segs = "[\<lparr>seg_type = BODY, label = Some ''A'', content = ''a1'', intervals = [], significance = None\<rparr>,
              \<lparr>seg_type = SUFFIX, label = Some ''suffix'', content = ''s'', intervals = [], significance = None\<rparr>,
              \<lparr>seg_type = BODY, label = Some ''B'', content = ''b'', intervals = [], significance = None\<rparr>,
              \<lparr>seg_type = PREFIX, label = Some ''prefix'', content = ''p'', intervals = [], significance = None\<rparr>,
              \<lparr>seg_type = BODY, label = Some ''A'', content = ''a2'', intervals = [], significance = None\<rparr>]"
  have h: "\<forall>s\<in>set ?segs. organizer_keeps s"
    by (simp add: organizer_keeps_def label_truthy_def)
  from organize_stable_permutation[of ?segs] h show ?thesis by blast
qed

text \<open>
  C3 as stated fails: a BODY segment whose label is \<open>None\<close> is dropped by the
  guard \<open>if segment.label\<close>, so the multiset of segments changes.
\<close>

theorem organize_drops_unlabelled_body_counterexample:
  "organize_segments_by_label
     [\<lparr>seg_type = BODY, label = None, content = ''x'', intervals = [], significance = None\<rparr>]
     = Inr []
   \<and> mset ([] :: Segment list)
     \<noteq> mset [\<lparr>seg_type = BODY, label = None, content = ''x'', intervals = [], significance = None\<rparr>]"
  by (simp add: organize_segments_by_label_def)

text \<open>
  C4 (as amended). On the segments it keeps (all but the BODY segments with a
  \<open>None\<close> or empty label) the organizer produces the order of \<open>organize_spec\<close>:
  PREFIX segments in original order, then the BODY segments grouped by label,
  groups by first appearance of the label and original order inside a group,
  then the SUFFIX segments in original order.
\<close>

theorem organize_regroups_kept_segments:
  "organize_segments_by_label segments = Inr (organize_spec (filter organizer_keeps segments))"
  by (simp only: organize_char organize_spec_kept)

text \<open>The theorem at seven segments, one of them a BODY segment with an empty label.\<close>

theorem organize_regroups_kept_segments_witness:
  "organize_segments_by_label
     [\<lparr>seg_type = BODY, label = Some ''A'', content = ''a1'', intervals = [], significance = None\<rparr>,
      \<lparr>seg_type = SUFFIX, label = Some ''suffix'', content = ''s1'', intervals = [], significance = None\<rparr>,
      \<lparr>seg_type = BODY, label = Some ''B'', content = ''b'', intervals = [], significance = None\<rparr>,
      \<lparr>seg_type = BODY, label = Some [], content = ''dropped'', intervals = [], significance = None\<rparr>,
      \<lparr>seg_type = PREFIX, label = Some ''Title'', content = ''p'', intervals = [], significance = None\<rparr>,
      \<lparr>seg_type = BODY, label = Some ''A'', content = ''a2'', intervals = [], significance = None\<rparr>,
      \<lparr>seg_type = SUFFIX, label = Some ''suffix'', content = ''s2'', intervals = [], significance = None\<rparr>]
   = Inr
     [\<lparr>seg_type = PREFIX, label = Some ''Title'', content = ''p'', intervals = [], significance = None\<rparr>,
      \<lparr>seg_type = BODY, label = Some ''A'', content = ''a1'', intervals = [], significance = None\<rparr>,
      \<lparr>seg_type = BODY, label = Some ''A'', content = ''a2'', intervals = [], significance = None\<rparr>,
      \<lparr>seg_type = BODY, label = Some ''B'', content = ''b'', intervals = [], significance = None\<rparr>,
      \<lparr>seg_type = SUFFIX, label = Some ''suffix'', content = ''s1'', intervals = [], significance = None\<rparr>,
      \<lparr>seg_type = SUFFIX, label = Some ''suffix'', content = ''s2'', intervals = [], significance = None\<rparr>]"
  using organize_regroups_kept_segments
    [of "[\<lparr>seg_type = BODY, label = Some ''A'', content = ''a1'', intervals = [], significance = None\<rparr>,
      \<lparr>seg_type = SUFFIX, label = Some ''suffix'', content = ''s1'', intervals = [], significance = None\<rparr>,
      \<lparr>seg_type = BODY, label = Some ''B'', content = ''b'', intervals = [], significance = None\<rparr>,
      \<lparr>seg_type = BODY, label = Some [], content = ''dropped'', intervals = [], significance = None\<rparr>,
      \<lparr>seg_type = PREFIX, label = Some ''Title'', content = ''p'', intervals = [], significance = None\<rparr>,
      \<lparr>seg_type = BODY, label = Some ''A'', content = ''a2'', intervals = [], significance = None\<rparr>,
      \<lparr>seg_type = SUFFIX, label = Some ''suffix'', content = ''s2'', intervals = [], significance = None\<rparr>]"]
  by (simp add: organize_spec_def organizer_keeps_def label_truthy_def)

text \<open>
  C4 as stated fails: with a BODY segment whose label is the empty string, the
  organizer's result is not the regrouping of all BODY segments.
\<close>

theorem organize_spec_counterexample:
  "organize_segments_by_label
     [\<lparr>seg_type = BODY, label = Some [], content = ''x'', intervals = [], significance = None\<rparr>,
      \<lparr>seg_type = BODY, label = Some ''A'', content = ''y'', intervals = [], significance = None\<rparr>]
   \<noteq> Inr (organize_spec
     [\<lparr>seg_type = BODY, label = Some [], content = ''x'', intervals = [], significance = None\<rparr>,
      \<lparr>seg_type = BODY, label = Some ''A'', content = ''y'', intervals = [], significance = None\<rparr>])"
  by (simp add: organize_segments_by_label_def organize_spec_def)


section \<open>Properties of the segment builder\<close>

lemmas py_str_defs = str_strip_def str_lstrip_def str_rstrip_def str_lower_def str_upper_def
  lower_char_def upper_char_def py_isspace_def str_startswith_def

lemmas builder_defs = map_section_def pharma_map_def segments_of_extraction_def
  create_segments_for_intervals_def determine_section_label_def SECTION_ATTRIBUTE_KEY_def
  extract_clinical_significance_def get_intervals_from_extraction_dict_def
  extract_positions_def extract_positions_try_def int_or_none_def

lemma build_segments_loop_concat:
  "build_segments_loop extractions acc = acc @ concat (map segments_of_extraction extractions)"
  by (induction extractions arbitrary: acc) simp_all

lemma build_segments_concat:
  "build_segments_from_langextract_result extractions =
     concat (map segments_of_extraction extractions)"
  by (simp add: build_segments_from_langextract_result_def build_segments_loop_concat)

lemma resolved_at_most_one:
  "length (get_intervals_from_extraction_dict e ci) \<le> 1"
  by (simp add: get_intervals_from_extraction_dict_def Let_def split: option.splits prod.splits)

lemma length_create_segments:
  "length (create_segments_for_intervals z l c ivs sg) = max 1 (length ivs)"
  by (cases ivs) (simp_all add: create_segments_for_intervals_def)

lemma length_segments_of_extraction:
  "length (segments_of_extraction e) =
     (case map_section (extraction_class e) of
        None \<Rightarrow> 0
      | Some z \<Rightarrow> max 1 (length (get_intervals_from_extraction_dict e (char_interval e))))"
  by (simp add: segments_of_extraction_def length_create_segments split: option.splits)

lemma length_segments_of_extraction_01:
  "length (segments_of_extraction e) = (if map_section (extraction_class e) = None then 0 else 1)"
  using resolved_at_most_one[of e "char_interval e"]
  by (simp add: length_segments_of_extraction split: option.splits)

text \<open>
  C7. The number of segments the builder produces is the sum, over the
  extractions whose class maps to a zone, of the resolved-interval count with
  zero counted as one; that is the number of mapped extractions, since at most
  one interval resolves. An extraction with an unmapped class adds no segment;
  a mapped one adds exactly one segment, which carries the resolved intervals
  (none or one).
\<close>

theorem builder_segment_count:
  "length (build_segments_from_langextract_result extractions) =
     (\<Sum>e\<leftarrow>extractions.
        case map_section (extraction_class e) of
          None \<Rightarrow> 0
        | Some z \<Rightarrow> max 1 (length (get_intervals_from_extraction_dict e (char_interval e))))
   \<and> length (build_segments_from_langextract_result extractions) =
       length (filter (\<lambda>e. map_section (extraction_class e) \<noteq> None) extractions)
   \<and> build_segments_from_langextract_result extractions =
       concat (map segments_of_extraction extractions)
   \<and> (\<forall>e \<in> set extractions.
        length (get_intervals_from_extraction_dict e (char_interval e)) \<le> 1
        \<and> (map_section (extraction_class e) = None \<longrightarrow> segments_of_extraction e = [])
        \<and> (map_section (extraction_class e) \<noteq> None \<longrightarrow>
             (\<exists>seg. segments_of_extraction e = [seg]
                \<and> intervals seg = get_intervals_from_extraction_dict e (char_interval e))))"
proof -
  have a: "length (build_segments_from_langextract_result extractions) =
     (\<Sum>e\<leftarrow>extractions.
        case map_section (extraction_class e) of
          None \<Rightarrow> 0
        | Some z \<Rightarrow> max 1 (length (get_intervals_from_extraction_dict e (char_interval e))))"
    by (simp add: build_segments_concat length_concat comp_def length_segments_of_extraction)
  have b: "length (build_segments_from_langextract_result extractions) =
       length (filter (\<lambda>e. map_section (extraction_class e) \<noteq> None) extractions)"
    unfolding build_segments_concat
    by (induction extractions) (simp_all add: length_segments_of_extraction_01)
  have c: "segments_of_extraction e = []" if "map_section (extraction_class e) = None" for e
    using that by (simp add: segments_of_extraction_def)
  have d: "\<exists>seg. segments_of_extraction e = [seg]
                \<and> intervals seg = get_intervals_from_extraction_dict e (char_interval e)"
    if "map_section (extraction_class e) \<noteq> None" for e
  proof -
    from that obtain z where z: "map_section (extraction_class e) = Some z" by auto
    show ?thesis
    proof (cases "get_intervals_from_extraction_dict e (char_interval e)")
      case Nil
      with z show ?thesis
        by (simp add: segments_of_extraction_def create_segments_for_intervals_def)
    next
      case (Cons iv rest)
      with resolved_at_most_one[of e "char_interval e"] have "rest = []" by simp
      with Cons z show ?thesis
        by (simp add: segments_of_extraction_def create_segments_for_intervals_def)
    qed
  qed
  from a b c d resolved_at_most_one build_segments_concat show ?thesis by blast
qed


text \<open>
  The theorem at an unmapped extraction, a mapped one without interval and a
  mapped one with the interval 0 to 14.
\<close>

theorem builder_segment_count_witness:
  "length (build_segments_from_langextract_result
     [\<lparr>extraction_text = ''see note'', extraction_class = ''footnote'',
       attributes = None, char_interval = None\<rparr>,
      \<lparr>extraction_text = ''p<0.001'', extraction_class = ''results_body'',
       attributes = Some [(''section'', ''Primary Endpoint'')], char_interval = None\<rparr>,
      \<lparr>extraction_text = ''STUDY TITLE: X'', extraction_class = ''document_header'',
       attributes = None,
       char_interval = Some \<lparr>start_pos = PyInt 0, end_pos = PyInt 14\<rparr>\<rparr>]) = 2
   \<and> segments_of_extraction
       \<lparr>extraction_text = ''see note'', extraction_class = ''footnote'',
        attributes = None, char_interval = None\<rparr> = []
   \<and> (\<exists>seg. segments_of_extraction
         \<lparr>extraction_text = ''STUDY TITLE: X'', extraction_class = ''document_header'',
          attributes = None,
          char_interval = Some \<lparr>start_pos = PyInt 0, end_pos = PyInt 14\<rparr>\<rparr> = [seg]
        \<and> intervals seg = [\<lparr>startPos = 0, endPos = 14\<rparr>])"
proof -
  let ?e1 = "\<lparr>extraction_text = ''see note'', extraction_class = ''footnote'',
       attributes = None, char_interval = None\<rparr>"
  let ?e2 = "\<lparr>extraction_text = ''p<0.001'', extraction_class = ''results_body'',
       attributes = Some [(''section'', ''Primary Endpoint'')], char_interval = None\<rparr>"
  let ?e3 = "\<lparr>extraction_text = ''STUDY TITLE: X'', extraction_class = ''document_header'',
       attributes = None,
       char_interval = Some \<lparr>start_pos = PyInt 0, end_pos = PyInt 14\<rparr>\<rparr>"
  have m1: "map_section (extraction_class ?e1) = None"
    by (simp add: py_str_defs map_section_def pharma_map_def)
  have m3: "map_section (extraction_class ?e3) \<noteq> None"
    by (simp add: py_str_defs map_section_def pharma_map_def)
  have i3: "get_intervals_from_extraction_dict ?e3 (char_interval ?e3) =
              [\<lparr>startPos = 0, endPos = 14\<rparr>]"
    by (simp add: builder_defs)
  note c = builder_segment_count[of "[?e1, ?e2, ?e3]"]
  from c have "length (build_segments_from_langextract_result [?e1, ?e2, ?e3]) = 2"
    by (simp add: py_str_defs builder_defs)
  moreover from c have
    "map_section (extraction_class ?e1) = None \<longrightarrow> segments_of_extraction ?e1 = []"
    by (meson list.set_intros(1))
  with m1 have "segments_of_extraction ?e1 = []" by blast
  moreover from c have
    "map_section (extraction_class ?e3) \<noteq> None \<longrightarrow>
       (\<exists>seg. segments_of_extraction ?e3 = [seg]
          \<and> intervals seg = get_intervals_from_extraction_dict ?e3 (char_interval ?e3))"
    by (meson list.set_intros)
  with m3 i3 have "\<exists>seg. segments_of_extraction ?e3 = [seg]
        \<and> intervals seg = [\<lparr>startPos = 0, endPos = 14\<rparr>]"
    by simp
  ultimately show ?thesis by blast
qed

lemma label_of_segment:
  "seg \<in> set (segments_of_extraction e) \<Longrightarrow>
   \<exists>z. map_section (extraction_class e) = Some z \<and> seg_type seg = z
     \<and> label seg = Some (determine_section_label (attributes e) z)"
  by (auto simp: segments_of_extraction_def create_segments_for_intervals_def
      split: option.splits if_splits)

lemma display_name_nonempty: "display_name z \<noteq> []"
  by (cases z) simp_all

lemma determine_section_label_char:
  "determine_section_label attrs z =
     (case Option.bind attrs (\<lambda>d. map_of d ''section'') of
        Some l \<Rightarrow> if l \<noteq> [] then l else display_name z
      | None \<Rightarrow> display_name z)"
  by (cases attrs) (auto simp: determine_section_label_def SECTION_ATTRIBUTE_KEY_def
      split: option.splits)

lemma determine_section_label_nonempty: "determine_section_label attrs z \<noteq> []"
  by (simp add: determine_section_label_char display_name_nonempty split: option.splits)

lemma built_segment_kept:
  "seg \<in> set (build_segments_from_langextract_result extractions) \<Longrightarrow> organizer_keeps seg"
proof -
  assume "seg \<in> set (build_segments_from_langextract_result extractions)"
  then obtain e where "seg \<in> set (segments_of_extraction e)"
    by (auto simp: build_segments_concat)
  from label_of_segment[OF this] show ?thesis
    by (auto simp: organizer_keeps_def label_truthy_def determine_section_label_nonempty)
qed

text \<open>
  C10. Every segment the builder produces comes from an extraction with a mapped
  class and has as label the extraction's \<open>section\<close> attribute when that is present
  and non-empty, else the display name of its zone, which is \<open>prefix\<close> for PREFIX,
  \<open>body\<close> for BODY and \<open>suffix\<close> for SUFFIX; the label is never \<open>None\<close> nor empty.
  Hence the organizer loses none of the builder's segments.
\<close>

theorem builder_labels_nonempty:
  "(\<forall>seg \<in> set (build_segments_from_langextract_result extractions).
      (\<exists>e \<in> set extractions. \<exists>z.
          map_section (extraction_class e) = Some z \<and> seg_type seg = z
          \<and> label seg =
              Some (case Option.bind (attributes e) (\<lambda>d. map_of d ''section'') of
                      Some l \<Rightarrow> if l \<noteq> [] then l else display_name z
                    | None \<Rightarrow> display_name z))
      \<and> label seg \<noteq> None \<and> label seg \<noteq> Some [])
   \<and> display_name PREFIX = ''prefix''
   \<and> display_name BODY = ''body''
   \<and> display_name SUFFIX = ''suffix''
   \<and> (\<exists>out. organize_segments_by_label (build_segments_from_langextract_result extractions)
               = Inr out
           \<and> mset out = mset (build_segments_from_langextract_result extractions))"
proof -
  let ?built = "build_segments_from_langextract_result extractions"
  have a: "(\<exists>e \<in> set extractions. \<exists>z.
          map_section (extraction_class e) = Some z \<and> seg_type seg = z
          \<and> label seg =
              Some (case Option.bind (attributes e) (\<lambda>d. map_of d ''section'') of
                      Some l \<Rightarrow> if l \<noteq> [] then l else display_name z
                    | None \<Rightarrow> display_name z))
      \<and> label seg \<noteq> None \<and> label seg \<noteq> Some []" if "seg \<in> set ?built" for seg
  proof -
    from that obtain e where e: "e \<in> set extractions" "seg \<in> set (segments_of_extraction e)"
      by (auto simp: build_segments_concat)
    from label_of_segment[OF e(2)] obtain z where
      z: "map_section (extraction_class e) = Some z" "seg_type seg = z"
         "label seg = Some (determine_section_label (attributes e) z)" by blast
    from z(3) have "label seg \<noteq> None" "label seg \<noteq> Some []"
      by (simp_all add: determine_section_label_nonempty)
    moreover from e(1) z have "\<exists>e \<in> set extractions. \<exists>z.
          map_section (extraction_class e) = Some z \<and> seg_type seg = z
          \<and> label seg =
              Some (case Option.bind (attributes e) (\<lambda>d. map_of d ''section'') of
                      Some l \<Rightarrow> if l \<noteq> [] then l else display_name z
                    | None \<Rightarrow> display_name z)"
      unfolding determine_section_label_char by blast
    ultimately show ?thesis by blast
  qed
  have b: "display_name PREFIX = ''prefix''" "display_name BODY = ''body''"
    "display_name SUFFIX = ''suffix''"
    by simp_all
  have "filter organizer_keeps ?built = ?built"
    by (simp add: filter_id_conv built_segment_kept)
  with organize_mset[OF organize_char, of ?built]
  have c: "\<exists>out. organize_segments_by_label ?built = Inr out \<and> mset out = mset ?built"
    by (simp add: organize_char)
  from a b c show ?thesis by blast
qed

text \<open>
  The theorem at an unmapped extraction, a header without attributes, a body
  extraction with a section attribute, one whose section attribute is empty, and
  a conclusion with an empty attribute dict: the labels are \<open>prefix\<close>, the section
  name, \<open>body\<close> and \<open>suffix\<close>.
\<close>

theorem builder_labels_nonempty_witness:
  "list_all (\<lambda>seg. label seg \<noteq> None \<and> label seg \<noteq> Some [])
     (build_segments_from_langextract_result
       [\<lparr>extraction_text = ''see note'', extraction_class = ''footnote'',
         attributes = None, char_interval = None\<rparr>,
        \<lparr>extraction_text = ''STUDY TITLE: X'', extraction_class = ''document_header'',
         attributes = None, char_interval = None\<rparr>,
        \<lparr>extraction_text = ''p<0.001'', extraction_class = ''results_body'',
         attributes = Some [(''section'', ''Primary Endpoint'')], char_interval = None\<rparr>,
        \<lparr>extraction_text = ''n=40'', extraction_class = ''methodology_body'',
         attributes = Some [(''section'', [])], char_interval = None\<rparr>,
        \<lparr>extraction_text = ''Drug is effective.'', extraction_class = ''conclusions_suffix'',
         attributes = Some [], char_interval = None\<rparr>])
   \<and> map (\<lambda>seg. (seg_type seg, label seg)) (build_segments_from_langextract_result
       [\<lparr>extraction_text = ''see note'', extraction_class = ''footnote'',
         attributes = None, char_interval = None\<rparr>,
        \<lparr>extraction_text = ''STUDY TITLE: X'', extraction_class = ''document_header'',
         attributes = None, char_interval = None\<rparr>,
        \<lparr>extraction_text = ''p<0.001'', extraction_class = ''results_body'',
         attributes = Some [(''section'', ''Primary Endpoint'')], char_interval = None\<rparr>,
        \<lparr>extraction_text = ''n=40'', extraction_class = ''methodology_body'',
         attributes = Some [(''section'', [])], char_interval = None\<rparr>,
        \<lparr>extraction_text = ''Drug is effective.'', extraction_class = ''conclusions_suffix'',
         attributes = Some [], char_interval = None\<rparr>])
       = [(PREFIX, Some (display_name PREFIX)), (BODY, Some ''Primary Endpoint''),
          (BODY, Some (display_name BODY)), (SUFFIX, Some (display_name SUFFIX))]
   \<and> map label (build_segments_from_langextract_result
       [\<lparr>extraction_text = ''see note'', extraction_class = ''footnote'',
         attributes = None, char_interval = None\<rparr>,
        \<lparr>extraction_text = ''STUDY TITLE: X'', extraction_class = ''document_header'',
         attributes = None, char_interval = None\<rparr>,
        \<lparr>extraction_text = ''p<0.001'', extraction_class = ''results_body'',
         attributes = Some [(''section'', ''Primary Endpoint'')], char_interval = None\<rparr>,
        \<lparr>extraction_text = ''n=40'', extraction_class = ''methodology_body'',
         attributes = Some [(''section'', [])], char_interval = None\<rparr>,
        \<lparr>extraction_text = ''Drug is effective.'', extraction_class = ''conclusions_suffix'',
         attributes = Some [], char_interval = None\<rparr>])
       = [Some ''prefix'', Some ''Primary Endpoint'', Some ''body'', Some ''suffix'']
   \<and> (\<exists>out. organize_segments_by_label (build_segments_from_langextract_result
       [\<lparr>extraction_text = ''see note'', extraction_class = ''footnote'',
         attributes = None, char_interval = None\<rparr>,
        \<lparr>extraction_text = ''STUDY TITLE: X'', extraction_class = ''document_header'',
         attributes = None, char_interval = None\<rparr>,
        \<lparr>extraction_text = ''p<0.001'', extraction_class = ''results_body'',
         attributes = Some [(''section'', ''Primary Endpoint'')], char_interval = None\<rparr>,
        \<lparr>extraction_text = ''n=40'', extraction_class = ''methodology_body'',
         attributes = Some [(''section'', [])], char_interval = None\<rparr>,
        \<lparr>extraction_text = ''Drug is effective.'', extraction_class = ''conclusions_suffix'',
         attributes = Some [], char_interval = None\<rparr>]) = Inr out
      \<and> length out = 4)"
proof -
  let ?exts = "[\<lparr>extraction_text = ''see note'', extraction_class = ''footnote'',
         attributes = None, char_interval = None\<rparr>,
        \<lparr>extraction_text = ''STUDY TITLE: X'', extraction_class = ''document_header'',
         attributes = None, char_interval = None\<rparr>,
        \<lparr>extraction_text = ''p<0.001'', extraction_class = ''results_body'',
         attributes = Some [(''section'', ''Primary Endpoint'')], char_interval = None\<rparr>,
        \<lparr>extraction_text = ''n=40'', extraction_class = ''methodology_body'',
         attributes = Some [(''section'', [])], char_interval = None\<rparr>,
        \<lparr>extraction_text = ''Drug is effective.'', extraction_class = ''conclusions_suffix'',
         attributes = Some [], char_interval = None\<rparr>]"
  have b: "build_segments_from_langextract_result ?exts =
     [\<lparr>seg_type = PREFIX, label = Some (display_name PREFIX), content = ''STUDY TITLE: X'',
       intervals = [], significance = None\<rparr>,
      \<lparr>seg_type = BODY, label = Some ''Primary Endpoint'', content = ''p<0.001'',
       intervals = [], significance = None\<rparr>,
      \<lparr>seg_type = BODY, label = Some (display_name BODY), content = ''n=40'',
       intervals = [], significance = None\<rparr>,
      \<lparr>seg_type = SUFFIX, label = Some (display_name SUFFIX), content = ''Drug is effective.'',
       intervals = [], significance = None\<rparr>]"
    by (simp add: build_segments_from_langextract_result_def py_str_defs builder_defs
          del: display_name.simps)
  note t = builder_labels_nonempty[of ?exts]
  from t have names: "display_name PREFIX = ''prefix''" "display_name BODY = ''body''"
    "display_name SUFFIX = ''suffix''"
    by blast+
  from t have "list_all (\<lambda>seg. label seg \<noteq> None \<and> label seg \<noteq> Some [])
     (build_segments_from_langextract_result ?exts)"
    unfolding list_all_iff by blast
  moreover have "map (\<lambda>seg. (seg_type seg, label seg))
       (build_segments_from_langextract_result ?exts)
       = [(PREFIX, Some (display_name PREFIX)), (BODY, Some ''Primary Endpoint''),
          (BODY, Some (display_name BODY)), (SUFFIX, Some (display_name SUFFIX))]"
    by (simp add: b del: display_name.simps)
  moreover have "map label (build_segments_from_langextract_result ?exts)
       = [Some ''prefix'', Some ''Primary Endpoint'', Some ''body'', Some ''suffix'']"
    by (simp only: b list.map Segment.simps names)
  moreover from t obtain out where
    out: "organize_segments_by_label (build_segments_from_langextract_result ?exts) = Inr out"
         "mset out = mset (build_segments_from_langextract_result ?exts)"
    by blast
  from out(2) have "length out = length (build_segments_from_langextract_result ?exts)"
    by (rule mset_eq_length)
  then have "length out = 4" by (simp add: b)
  with out(1) have "\<exists>out. organize_segments_by_label
       (build_segments_from_langextract_result ?exts) = Inr out \<and> length out = 4"
    by blast
  ultimately show ?thesis by blast
qed

text \<open>
  C1. At an extraction whose interval runs from 5 to 3 the builder emits a
  segment carrying that interval: nothing checks \<open>end > start >= 0\<close>.
\<close>

theorem builder_keeps_reversed_interval:
  "build_segments_from_langextract_result
     [\<lparr>extraction_text = ''p<0.001'', extraction_class = ''results_body'',
       attributes = None,
       char_interval = Some \<lparr>start_pos = PyInt 5, end_pos = PyInt 3\<rparr>\<rparr>]
   = [\<lparr>seg_type = BODY, label = Some ''body'', content = ''p<0.001'',
       intervals = [\<lparr>startPos = 5, endPos = 3\<rparr>], significance = None\<rparr>]"
  by (simp add: build_segments_from_langextract_result_def py_str_defs builder_defs)

text \<open>An endpoint on which \<open>int()\<close> raises gives no interval, and no exception.\<close>

lemma non_numeric_endpoint_absent:
  "get_intervals_from_extraction_dict e (Some \<lparr>start_pos = PyNonNumeric, end_pos = b\<rparr>) = []"
  "get_intervals_from_extraction_dict e (Some \<lparr>start_pos = a, end_pos = PyNonNumeric\<rparr>) = []"
  by (cases a; simp add: builder_defs split: sum.splits pyobj.splits)+


section \<open>Properties of the text renderer\<close>

lemmas renderer_defs = group_segments_by_type_and_label_def od_setdefault_def
  format_segments_to_text_def render_prefix_sections_def render_body_sections_def
  render_suffix_sections_def structured_prefix_exists_def label_lower_is_def
  label_lower_is_not_def strip_exam_prefix_def EXAM_PREFIXES_def EXAMINATION_LABEL_def
  PREFIX_LABEL_def EXAMINATION_HEADER_def FINDINGS_HEADER_def IMPRESSION_HEADER_def
  format_label_def

text \<open>
  C2. Two segments of one (zone, label) group with the identical content
  \<open>" a"\<close>: the group holds \<open>"a"\<close> twice and the rendered text has two content
  lines. The membership test compares the unstripped content with the stripped
  contents already stored, so it misses the repetition.
\<close>

theorem renderer_repeats_unstripped_duplicate:
  "group_segments_by_type_and_label
     [\<lparr>seg_type = PREFIX, label = Some ''Title'', content = '' a'', intervals = [],
       significance = None\<rparr>,
      \<lparr>seg_type = PREFIX, label = Some ''Title'', content = '' a'', intervals = [],
       significance = None\<rparr>]
     = [((PREFIX, Some ''Title''), [''a'', ''a''])]
   \<and> format_segments_to_text
     [\<lparr>seg_type = PREFIX, label = Some ''Title'', content = '' a'', intervals = [],
       significance = None\<rparr>,
      \<lparr>seg_type = PREFIX, label = Some ''Title'', content = '' a'', intervals = [],
       significance = None\<rparr>]
     = ''a'' @ [CHR 0x0A] @ ''a''"
  by (simp add: renderer_defs py_str_defs Let_def)

text \<open>
  Contents that carry no surrounding whitespace are deduplicated: no group holds
  a content twice.
\<close>

lemma od_append_to_distinct:
  "\<forall>g \<in> set d. distinct (snd g) \<Longrightarrow> map_of d k = Some cs \<Longrightarrow> x \<notin> set cs \<Longrightarrow>
   \<forall>g \<in> set (od_append_to d k x). distinct (snd g)"
proof (induction d)
  case Nil
  then show ?case by simp
next
  case (Cons a d)
  obtain k' vs where a: "a = (k', vs)" by (cases a)
  show ?case
  proof (cases "k' = k")
    case True
    with Cons.prems a show ?thesis by simp
  next
    case False
    with Cons.prems a have "map_of d k = Some cs" by simp
    with Cons.IH Cons.prems have "\<forall>g \<in> set (od_append_to d k x). distinct (snd g)" by simp
    with Cons.prems a False show ?thesis by simp
  qed
qed

lemma group_segments_loop_distinct:
  "\<forall>s \<in> set segments. str_strip (content s) = content s \<Longrightarrow>
   \<forall>g \<in> set grouped. distinct (snd g) \<Longrightarrow>
   \<forall>g \<in> set (group_segments_loop segments grouped). distinct (snd g)"
proof (induction segments arbitrary: grouped)
  case Nil
  then show ?case by simp
next
  case (Cons seg rest)
  let ?key = "(seg_type seg, label seg)"
  let ?g1 = "od_setdefault grouped ?key []"
  have d1: "\<forall>g \<in> set ?g1. distinct (snd g)"
    using Cons.prems(2) by (simp add: od_setdefault_def)
  from Cons.prems(1) have rest: "\<forall>s \<in> set rest. str_strip (content s) = content s"
    and seg: "str_strip (content seg) = content seg" by simp_all
  show ?case
  proof (cases "map_of ?g1 ?key")
    case None
    with Cons.IH[OF rest d1] show ?thesis by (simp add: Let_def)
  next
    case (Some cs)
    show ?thesis
    proof (cases "content seg \<in> set cs")
      case True
      with Some Cons.IH[OF rest d1] show ?thesis by (simp add: Let_def)
    next
      case False
      with od_append_to_distinct[OF d1 Some, of "content seg"]
      have "\<forall>g \<in> set (od_append_to ?g1 ?key (str_strip (content seg))). distinct (snd g)"
        by (simp add: seg)
      from Cons.IH[OF rest this] Some False show ?thesis by (simp add: Let_def)
    qed
  qed
qed

lemma group_contents_distinct:
  "\<forall>s \<in> set segments. str_strip (content s) = content s \<Longrightarrow>
   \<forall>g \<in> set (group_segments_by_type_and_label segments). distinct (snd g)"
  unfolding group_segments_by_type_and_label_def
  by (rule group_segments_loop_distinct) simp_all

lemma render_structured_prefix_lines:
  "render_structured_prefix grouped parts =
     parts @ concat (map prefix_group_lines (prefix_groups grouped))"
proof (induction grouped arbitrary: parts)
  case Nil
  then show ?case by (simp add: prefix_groups_def)
next
  case (Cons g grouped)
  obtain stype lbl contents where g: "g = ((stype, lbl), contents)"
    by (metis surj_pair)
  show ?case
    unfolding g by (simp add: Cons.IH prefix_groups_def prefix_group_lines_def)
qed

lemma plain_prefix_loop_contents:
  "plain_prefix_loop grouped acc = acc @ concat (map snd (prefix_groups grouped))"
proof (induction grouped arbitrary: acc)
  case Nil
  then show ?case by (simp add: prefix_groups_def)
next
  case (Cons g grouped)
  obtain stype lbl contents where g: "g = ((stype, lbl), contents)"
    by (metis surj_pair)
  show ?case
    unfolding g by (simp add: Cons.IH prefix_groups_def)
qed

lemma str_upper_append: "str_upper (a @ b) = str_upper a @ str_upper b"
  by (simp add: str_upper_def)

lemma strip_exam_prefix_token:
  assumes "p \<in> set EXAM_PREFIXES" and "str_upper q = p" and len: "length q = length p"
  shows "strip_exam_prefix (q @ rest) = str_lstrip rest"
proof -
  have up: "str_upper (q @ rest) = p @ str_upper rest"
    using assms(2) by (simp add: str_upper_append)
  from assms(1) consider "p = ''EXAMINATION:''" | "p = ''EXAM:''" | "p = ''STUDY:''"
    by (auto simp: EXAM_PREFIXES_def)
  then show ?thesis
  proof cases
    case 1
    with len up show ?thesis
      by (simp add: strip_exam_prefix_def EXAM_PREFIXES_def str_startswith_def)
  next
    case 2
    with len up show ?thesis
      by (simp add: strip_exam_prefix_def EXAM_PREFIXES_def str_startswith_def)
  next
    case 3
    with len up show ?thesis
      by (simp add: strip_exam_prefix_def EXAM_PREFIXES_def str_startswith_def)
  qed
qed

lemma strip_exam_prefix_other:
  assumes "\<forall>p \<in> set EXAM_PREFIXES. \<not> str_startswith (str_upper text) p"
  shows "strip_exam_prefix text = str_strip text"
  using assms by (simp add: strip_exam_prefix_def EXAM_PREFIXES_def)

text \<open>
  C9 as stated fails: a PREFIX group with the label \<open>Study Title\<close> is rendered as
  its content line alone; no heading line stands above it, neither the label nor
  any other.
\<close>

theorem prefix_group_without_heading_counterexample:
  "render_prefix_sections
     (group_segments_by_type_and_label
       [\<lparr>seg_type = PREFIX, label = Some ''Study Title'', content = ''Phase 3 trial'',
         intervals = [], significance = None\<rparr>])
     [\<lparr>seg_type = PREFIX, label = Some ''Study Title'', content = ''Phase 3 trial'',
       intervals = [], significance = None\<rparr>]
     []
     = [''Phase 3 trial'', []]
   \<and> format_segments_to_text
     [\<lparr>seg_type = PREFIX, label = Some ''Study Title'', content = ''Phase 3 trial'',
       intervals = [], significance = None\<rparr>]
     = ''Phase 3 trial''"
  by (simp add: renderer_defs py_str_defs Let_def)

text \<open>
  C9 (as amended). When some PREFIX segment has a non-default label, that is a
  non-empty label other than \<open>prefix\<close> in lower case (the label \<open>examination\<close>
  counts), the renderer appends to the parts, for each PREFIX group in order, the
  lines of \<open>prefix_group_lines\<close>: the group's non-empty contents and a blank line,
  with no banner and no heading line, except that a group labelled \<open>examination\<close>
  gets the \<open>EXAMINATION:\<close> banner and has the examination prefix stripped from each
  content. When every PREFIX label is the zone default (\<open>prefix\<close> in any case,
  empty or \<open>None\<close>), the contents of all PREFIX groups are joined with a blank line
  between them into one part, trailing whitespace trimmed, and no banner; the two
  cases cover every input. Stripping the examination prefix removes a leading
  token that is, in upper case, one of \<open>EXAMINATION:\<close>, \<open>EXAM:\<close>, \<open>STUDY:\<close> and has as
  many characters as that synonym, together with the whitespace after it; a
  content whose upper-case form starts with none of the three is only stripped of
  surrounding whitespace.
\<close>

theorem prefix_zone_rendering:
  "(list_ex (\<lambda>seg. seg_type seg = PREFIX \<and> label_lower_is_not (label seg) PREFIX_LABEL)
       segments \<longrightarrow>
      render_prefix_sections grouped segments parts =
        parts @ concat (map prefix_group_lines (prefix_groups grouped)))
   \<and> ((\<forall>seg \<in> set segments.
         seg_type seg = PREFIX \<longrightarrow> \<not> label_lower_is_not (label seg) PREFIX_LABEL) \<longrightarrow>
      render_prefix_sections grouped segments parts =
        (if concat (map snd (prefix_groups grouped)) = [] then parts
         else parts @ [str_rstrip (str_join [CHR 0x0A, CHR 0x0A]
                         (concat (map snd (prefix_groups grouped))))]))
   \<and> (\<forall>p \<in> set EXAM_PREFIXES. \<forall>q rest.
         str_upper q = p \<and> length q = length p \<longrightarrow>
           strip_exam_prefix (q @ rest) = str_lstrip rest)
   \<and> ((\<forall>p \<in> set EXAM_PREFIXES. \<not> str_startswith (str_upper c) p) \<longrightarrow>
         strip_exam_prefix c = str_strip c)"
proof -
  have a: "render_prefix_sections grouped segments parts =
        parts @ concat (map prefix_group_lines (prefix_groups grouped))"
    if "list_ex (\<lambda>seg. seg_type seg = PREFIX \<and> label_lower_is_not (label seg) PREFIX_LABEL)
          segments"
  proof -
    from that have "structured_prefix_exists segments"
      by (simp add: structured_prefix_exists_def)
    then show ?thesis
      by (simp add: render_prefix_sections_def render_structured_prefix_lines)
  qed
  have b: "render_prefix_sections grouped segments parts =
        (if concat (map snd (prefix_groups grouped)) = [] then parts
         else parts @ [str_rstrip (str_join [CHR 0x0A, CHR 0x0A]
                         (concat (map snd (prefix_groups grouped))))])"
    if "\<forall>seg \<in> set segments.
         seg_type seg = PREFIX \<longrightarrow> \<not> label_lower_is_not (label seg) PREFIX_LABEL"
  proof -
    from that have "\<not> structured_prefix_exists segments"
      by (auto simp: structured_prefix_exists_def list_ex_iff)
    then show ?thesis
      by (simp add: render_prefix_sections_def plain_prefix_loop_contents Let_def)
  qed
  have c: "strip_exam_prefix (q @ rest) = str_lstrip rest"
    if "p \<in> set EXAM_PREFIXES" and "str_upper q = p \<and> length q = length p" for p q rest
    using that strip_exam_prefix_token[of p q rest] by blast
  from a b c strip_exam_prefix_other show ?thesis by blast
qed

text \<open>
  The theorem at a lone \<open>examination\<close> segment, at an \<open>examination\<close> group followed
  by a titled group, at two segments with the default label, at a token for each
  of the three synonyms, and at a content without a token.
\<close>

theorem prefix_zone_rendering_witness:
  "render_prefix_sections
     (group_segments_by_type_and_label
       [\<lparr>seg_type = PREFIX, label = Some ''examination'', content = ''EXAMINATION: Chest CT'',
         intervals = [], significance = None\<rparr>])
     [\<lparr>seg_type = PREFIX, label = Some ''examination'', content = ''EXAMINATION: Chest CT'',
       intervals = [], significance = None\<rparr>]
     []
     = [''EXAMINATION:'', [], ''Chest CT'', []]
   \<and> render_prefix_sections
     (group_segments_by_type_and_label
       [\<lparr>seg_type = PREFIX, label = Some ''examination'', content = ''EXAMINATION: Chest CT'',
         intervals = [], significance = None\<rparr>,
        \<lparr>seg_type = PREFIX, label = Some ''Study Title'', content = ''STUDY TITLE: X'',
         intervals = [], significance = None\<rparr>])
     [\<lparr>seg_type = PREFIX, label = Some ''examination'', content = ''EXAMINATION: Chest CT'',
       intervals = [], significance = None\<rparr>,
      \<lparr>seg_type = PREFIX, label = Some ''Study Title'', content = ''STUDY TITLE: X'',
       intervals = [], significance = None\<rparr>]
     []
     = [''EXAMINATION:'', [], ''Chest CT'', [], ''STUDY TITLE: X'', []]
   \<and> render_prefix_sections
     (group_segments_by_type_and_label
       [\<lparr>seg_type = PREFIX, label = Some ''prefix'', content = ''Header one'',
         intervals = [], significance = None\<rparr>,
        \<lparr>seg_type = PREFIX, label = Some ''prefix'', content = ''Header two'',
         intervals = [], significance = None\<rparr>])
     [\<lparr>seg_type = PREFIX, label = Some ''prefix'', content = ''Header one'',
       intervals = [], significance = None\<rparr>,
      \<lparr>seg_type = PREFIX, label = Some ''prefix'', content = ''Header two'',
       intervals = [], significance = None\<rparr>]
     []
     = [''Header one'' @ [CHR 0x0A, CHR 0x0A] @ ''Header two'']
   \<and> strip_exam_prefix (''Examination:'' @ '' Chest CT'') = ''Chest CT''
   \<and> strip_exam_prefix (''Exam:'' @ '' Chest CT'') = ''Chest CT''
   \<and> strip_exam_prefix (''study:'' @ ''  Phase 3'') = ''Phase 3''
   \<and> strip_exam_prefix ''Normal findings '' = ''Normal findings''"
proof -
  let ?S0 = "[\<lparr>seg_type = PREFIX, label = Some ''examination'', content = ''EXAMINATION: Chest CT'',
       intervals = [], significance = None\<rparr>]"
  let ?S1 = "[\<lparr>seg_type = PREFIX, label = Some ''examination'', content = ''EXAMINATION: Chest CT'',
       intervals = [], significance = None\<rparr>,
      \<lparr>seg_type = PREFIX, label = Some ''Study Title'', content = ''STUDY TITLE: X'',
       intervals = [], significance = None\<rparr>]"
  let ?S2 = "[\<lparr>seg_type = PREFIX, label = Some ''prefix'', content = ''Header one'',
       intervals = [], significance = None\<rparr>,
      \<lparr>seg_type = PREFIX, label = Some ''prefix'', content = ''Header two'',
       intervals = [], significance = None\<rparr>]"
  have g0: "group_segments_by_type_and_label ?S0 =
      [((PREFIX, Some ''examination''), [''EXAMINATION: Chest CT''])]"
    by (simp add: group_segments_by_type_and_label_def od_setdefault_def py_str_defs)
  have g1: "group_segments_by_type_and_label ?S1 =
      [((PREFIX, Some ''examination''), [''EXAMINATION: Chest CT'']),
       ((PREFIX, Some ''Study Title''), [''STUDY TITLE: X''])]"
    by (simp add: group_segments_by_type_and_label_def od_setdefault_def py_str_defs)
  have g2: "group_segments_by_type_and_label ?S2 =
      [((PREFIX, Some ''prefix''), [''Header one'', ''Header two''])]"
    by (simp add: group_segments_by_type_and_label_def od_setdefault_def py_str_defs)
  have h0: "list_ex (\<lambda>seg. seg_type seg = PREFIX \<and> label_lower_is_not (label seg) PREFIX_LABEL) ?S0"
    by (simp add: label_lower_is_not_def PREFIX_LABEL_def py_str_defs)
  have h1: "list_ex (\<lambda>seg. seg_type seg = PREFIX \<and> label_lower_is_not (label seg) PREFIX_LABEL) ?S1"
    by (simp add: label_lower_is_not_def PREFIX_LABEL_def py_str_defs)
  have h2: "\<forall>seg \<in> set ?S2.
         seg_type seg = PREFIX \<longrightarrow> \<not> label_lower_is_not (label seg) PREFIX_LABEL"
    by (simp add: label_lower_is_not_def PREFIX_LABEL_def py_str_defs)
  have m: "''EXAMINATION:'' \<in> set EXAM_PREFIXES" "''EXAM:'' \<in> set EXAM_PREFIXES"
      "''STUDY:'' \<in> set EXAM_PREFIXES"
    by (simp_all add: EXAM_PREFIXES_def)
  have u: "str_upper ''Examination:'' = ''EXAMINATION:''
             \<and> length ''Examination:'' = length ''EXAMINATION:''"
      "str_upper ''Exam:'' = ''EXAM:'' \<and> length ''Exam:'' = length ''EXAM:''"
      "str_upper ''study:'' = ''STUDY:'' \<and> length ''study:'' = length ''STUDY:''"
    by (simp_all add: py_str_defs)
  have h4: "\<forall>p \<in> set EXAM_PREFIXES. \<not> str_startswith (str_upper ''Normal findings '') p"
    by (simp add: EXAM_PREFIXES_def py_str_defs)
  from prefix_zone_rendering[of ?S0 "group_segments_by_type_and_label ?S0" "[]"] h0
  have "render_prefix_sections (group_segments_by_type_and_label ?S0) ?S0 [] =
        [] @ concat (map prefix_group_lines (prefix_groups (group_segments_by_type_and_label ?S0)))"
    by blast
  then have r0: "render_prefix_sections (group_segments_by_type_and_label ?S0) ?S0 [] =
        [''EXAMINATION:'', [], ''Chest CT'', []]"
    unfolding g0
    by (simp add: prefix_groups_def prefix_group_lines_def renderer_defs py_str_defs)
  from prefix_zone_rendering[of ?S1 "group_segments_by_type_and_label ?S1" "[]"] h1
  have "render_prefix_sections (group_segments_by_type_and_label ?S1) ?S1 [] =
        [] @ concat (map prefix_group_lines (prefix_groups (group_segments_by_type_and_label ?S1)))"
    by blast
  then have r1: "render_prefix_sections (group_segments_by_type_and_label ?S1) ?S1 [] =
        [''EXAMINATION:'', [], ''Chest CT'', [], ''STUDY TITLE: X'', []]"
    unfolding g1
    by (simp add: prefix_groups_def prefix_group_lines_def renderer_defs py_str_defs)
  from prefix_zone_rendering[of ?S2 "group_segments_by_type_and_label ?S2" "[]"] h2
  have "render_prefix_sections (group_segments_by_type_and_label ?S2) ?S2 [] =
        (if concat (map snd (prefix_groups (group_segments_by_type_and_label ?S2))) = [] then []
         else [] @ [str_rstrip (str_join [CHR 0x0A, CHR 0x0A]
                 (concat (map snd (prefix_groups (group_segments_by_type_and_label ?S2)))))])"
    by blast
  then have r2: "render_prefix_sections (group_segments_by_type_and_label ?S2) ?S2 [] =
        [''Header one'' @ [CHR 0x0A, CHR 0x0A] @ ''Header two'']"
    unfolding g2 by (simp add: prefix_groups_def py_str_defs)
  note t = prefix_zone_rendering[of ?S1 "[]" "[]" "''Normal findings ''"]
  from t m(1) u(1)
  have "strip_exam_prefix (''Examination:'' @ '' Chest CT'') = str_lstrip '' Chest CT''"
    by blast
  then have r3: "strip_exam_prefix (''Examination:'' @ '' Chest CT'') = ''Chest CT''"
    by (simp add: py_str_defs)
  from t m(2) u(2)
  have "strip_exam_prefix (''Exam:'' @ '' Chest CT'') = str_lstrip '' Chest CT''"
    by blast
  then have r4: "strip_exam_prefix (''Exam:'' @ '' Chest CT'') = ''Chest CT''"
    by (simp add: py_str_defs)
  from t m(3) u(3)
  have "strip_exam_prefix (''study:'' @ ''  Phase 3'') = str_lstrip ''  Phase 3''"
    by blast
  then have r5: "strip_exam_prefix (''study:'' @ ''  Phase 3'') = ''Phase 3''"
    by (simp add: py_str_defs)
  from t h4
  have "strip_exam_prefix ''Normal findings '' = str_strip ''Normal findings ''"
    by blast
  then have r6: "strip_exam_prefix ''Normal findings '' = ''Normal findings''"
    by (simp add: py_str_defs)
  from r0 r1 r2 r3 r4 r5 r6 show ?thesis by blast
qed

section \<open>Properties of \<open>predict\<close>\<close>

lemma str_rstrip_all_space:
  "(\<forall>c \<in> set (str_rstrip s). py_isspace c) \<longleftrightarrow> (\<forall>c \<in> set s. py_isspace c)"
proof
  assume a: "\<forall>c \<in> set (str_rstrip s). py_isspace c"
  have "dropWhile py_isspace (rev s) = []"
  proof (rule ccontr)
    assume n: "dropWhile py_isspace (rev s) \<noteq> []"
    then have "\<not> py_isspace (hd (dropWhile py_isspace (rev s)))"
      by (rule hd_dropWhile)
    moreover from n have "hd (dropWhile py_isspace (rev s)) \<in> set (str_rstrip s)"
      by (simp add: str_rstrip_def)
    ultimately show False using a by blast
  qed
  then show "\<forall>c \<in> set s. py_isspace c"
    by (simp add: dropWhile_eq_Nil_conv)
next
  assume "\<forall>c \<in> set s. py_isspace c"
  then have "dropWhile py_isspace (rev s) = []" by (simp add: dropWhile_eq_Nil_conv)
  then have "str_rstrip s = []" by (simp only: str_rstrip_def rev.simps)
  then show "\<forall>c \<in> set (str_rstrip s). py_isspace c" by simp
qed

lemma str_strip_empty_iff:
  "str_strip s = [] \<longleftrightarrow> (\<forall>c \<in> set s. py_isspace c)"
  by (simp add: str_strip_def str_lstrip_def dropWhile_eq_Nil_conv str_rstrip_all_space)

text \<open>
  C8. For a report text that is empty or consists of whitespace only, \<open>predict\<close>
  raises \<open>ValueError("Report text cannot be empty")\<close> to its caller, whatever the
  extraction engine would do: the engine is not consulted and no payload is
  returned. The error payload belongs to pipeline failures: for any other text,
  a \<open>ValueError\<close>, \<open>TypeError\<close> or \<open>AttributeError\<close> of the engine becomes the payload
  with the message \<open>Error processing report: ...\<close> and an empty segment list.
\<close>

theorem predict_rejects_blank_input:
  "((\<forall>c \<in> set report_text. py_isspace c) \<longrightarrow>
      predict perform_langextract generate_prompt report_text max_char_buffer =
        Inl (ValueError ''Report text cannot be empty''))
   \<and> (\<not> (\<forall>c \<in> set report_text. py_isspace c) \<longrightarrow>
       perform_langextract report_text max_char_buffer = Inl e \<longrightarrow>
       caught_message e = Some msg \<longrightarrow>
       predict perform_langextract generate_prompt report_text max_char_buffer =
         Inr \<lparr>resp_segments = [], resp_annotated_document_json = EmptyJson,
              resp_text = ''Error processing report: '' @ msg, resp_raw_prompt = []\<rparr>)"
  by (simp add: predict_def str_strip_empty_iff)

text \<open>
  The theorem at a text of blanks, a newline and a tab, and at a proper text on
  which the engine raises.
\<close>

theorem predict_rejects_blank_input_witness:
  "predict (\<lambda>t n. Inl (ValueError ''API key missing'')) (\<lambda>t. t)
     [CHR '' '', CHR '' '', CHR 0x0A, CHR 0x09, CHR '' ''] 2000
     = Inl (ValueError ''Report text cannot be empty'')
   \<and> predict (\<lambda>t n. Inl (ValueError ''API key missing'')) (\<lambda>t. t) ''EXAMINATION: Test'' 2000
     = Inr \<lparr>resp_segments = [], resp_annotated_document_json = EmptyJson,
            resp_text = ''Error processing report: API key missing'', resp_raw_prompt = []\<rparr>"
proof -
  have h1: "\<forall>c \<in> set [CHR '' '', CHR '' '', CHR 0x0A, CHR 0x09, CHR '' '']. py_isspace c"
    by (simp add: py_isspace_def)
  have h2: "\<not> (\<forall>c \<in> set ''EXAMINATION: Test''. py_isspace c)"
    by (simp add: py_isspace_def)
  from predict_rejects_blank_input
         [of "[CHR '' '', CHR '' '', CHR 0x0A, CHR 0x09, CHR '' '']"
             "\<lambda>t n. Inl (ValueError ''API key missing'')" "\<lambda>t. t" 2000] h1
  have r1: "predict (\<lambda>t n. Inl (ValueError ''API key missing'')) (\<lambda>t. t)
     [CHR '' '', CHR '' '', CHR 0x0A, CHR 0x09, CHR '' ''] 2000
     = Inl (ValueError ''Report text cannot be empty'')"
    by blast
  from predict_rejects_blank_input
         [of "''EXAMINATION: Test''" "\<lambda>t n. Inl (ValueError ''API key missing'')" "\<lambda>t. t" 2000
             "ValueError ''API key missing''" "''API key missing''"] h2
  have r2: "predict (\<lambda>t n. Inl (ValueError ''API key missing'')) (\<lambda>t. t) ''EXAMINATION: Test'' 2000
     = Inr \<lparr>resp_segments = [], resp_annotated_document_json = EmptyJson,
            resp_text = ''Error processing report: '' @ ''API key missing'', resp_raw_prompt = []\<rparr>"
    by simp
  from r1 r2 show ?thesis by simp
qed

section \<open>Properties of the cache store\<close>

lemmas cache_defs = get_cache_key_def get_cached_result_def cache_result_def save_cache_def
  remove_sample_def clear_cache_def

text \<open>
  C5. On an empty cache, \<open>cache_result\<close> with the id \<open>sample_1\<close> stores under the key
  \<open>sample_1\<close>; \<open>remove_sample\<close> with the same id looks for \<open>sample_sample_1\<close>,
  returns \<open>False\<close> and leaves the cache as it is, and the payload is still found.
\<close>

theorem remove_sample_misses_prefixed_id:
  "remove_sample
     (cache_result md5_hexdigest
        \<lparr>cache_data = Map.empty, cache_file = NoFile, disk = WriteSucceeds\<rparr>
        ''report text'' payload (Some ''sample_1''))
     ''sample_1''
   = (False,
      cache_result md5_hexdigest
        \<lparr>cache_data = Map.empty, cache_file = NoFile, disk = WriteSucceeds\<rparr>
        ''report text'' payload (Some ''sample_1''))
   \<and> get_cached_result md5_hexdigest
       (snd (remove_sample
          (cache_result md5_hexdigest
             \<lparr>cache_data = Map.empty, cache_file = NoFile, disk = WriteSucceeds\<rparr>
             ''report text'' payload (Some ''sample_1''))
          ''sample_1''))
       ''report text'' (Some ''sample_1'')
     = Some payload"
  by (simp add: cache_defs str_startswith_def Let_def)

text \<open>What \<open>remove_sample\<close> does with the key \<open>sample_<id>\<close> itself.\<close>

lemma remove_sample_absent:
  "cache_data st (''sample_'' @ sample_id) = None \<Longrightarrow> remove_sample st sample_id = (False, st)"
  by (simp add: remove_sample_def Let_def)

lemma remove_sample_present:
  assumes "cache_data st (''sample_'' @ sample_id) = Some v"
  shows "fst (remove_sample st sample_id) = True"
    and "cache_data (snd (remove_sample st sample_id)) (''sample_'' @ sample_id) = None"
    and "disk st = WriteSucceeds \<Longrightarrow>
           cache_file (snd (remove_sample st sample_id)) =
             JsonFile (cache_data (snd (remove_sample st sample_id)))"
  using assms
  by (simp_all add: remove_sample_def save_cache_def Let_def split: write_outcome.splits)

text \<open>
  C6 (as amended). The key is a function of the text and the sample id alone.
  Without an id, or with the empty id, it is \<open>custom_\<close> followed by the hash of
  the text, so equal texts give equal keys. With a non-empty id it is the id
  itself when the id starts with \<open>sample_\<close>, else \<open>sample_\<close> followed by the id;
  either way it starts with \<open>sample_\<close>.
\<close>

theorem cache_key_derivation:
  "get_cache_key md5_hexdigest txt None = ''custom_'' @ md5_hexdigest txt
   \<and> get_cache_key md5_hexdigest txt (Some []) = ''custom_'' @ md5_hexdigest txt
   \<and> (sid \<noteq> [] \<longrightarrow>
        get_cache_key md5_hexdigest txt (Some sid) =
          (if str_startswith sid ''sample_'' then sid else ''sample_'' @ sid))
   \<and> (sid \<noteq> [] \<longrightarrow> str_startswith (get_cache_key md5_hexdigest txt (Some sid)) ''sample_'')"
  by (simp add: get_cache_key_def str_startswith_def)

text \<open>The theorem at the ids \<open>sample_1\<close> and \<open>1\<close>, which share one key.\<close>

theorem cache_key_derivation_witness:
  "get_cache_key (\<lambda>t. ''d41d8cd98f00b204e9800998ecf8427e'') [] (Some ''sample_1'') = ''sample_1''
   \<and> get_cache_key (\<lambda>t. ''d41d8cd98f00b204e9800998ecf8427e'') [] (Some ''1'') = ''sample_1''"
proof -
  have n: "''sample_1'' \<noteq> []" "''1'' \<noteq> []" by simp_all
  from cache_key_derivation[of "\<lambda>t. ''d41d8cd98f00b204e9800998ecf8427e''" "[]" "''sample_1''"] n(1)
  have "get_cache_key (\<lambda>t. ''d41d8cd98f00b204e9800998ecf8427e'') [] (Some ''sample_1'') =
          (if str_startswith ''sample_1'' ''sample_'' then ''sample_1'' else ''sample_'' @ ''sample_1'')"
    by blast
  moreover
  from cache_key_derivation[of "\<lambda>t. ''d41d8cd98f00b204e9800998ecf8427e''" "[]" "''1''"] n(2)
  have "get_cache_key (\<lambda>t. ''d41d8cd98f00b204e9800998ecf8427e'') [] (Some ''1'') =
          (if str_startswith ''1'' ''sample_'' then ''1'' else ''sample_'' @ ''1'')"
    by blast
  ultimately show ?thesis by (simp add: str_startswith_def)
qed

text \<open>
  C6 as stated fails: the empty id is given, yet the key is the hash key of the
  text (here the empty text, with its MD5 digest), not \<open>sample_\<close>.
\<close>

theorem cache_key_empty_id_counterexample:
  "get_cache_key (\<lambda>t. ''d41d8cd98f00b204e9800998ecf8427e'') [] (Some [])
     = ''custom_d41d8cd98f00b204e9800998ecf8427e''
   \<and> get_cache_key (\<lambda>t. ''d41d8cd98f00b204e9800998ecf8427e'') [] (Some []) \<noteq> ''sample_'' @ []"
  by (simp add: get_cache_key_def)


end
